theory Spec2Isabelle
  imports Main "HOL-Library.Finite_Map" "HOL-Library.Monad_Syntax" "HOL-Library.Sublist"
begin

section \<open>Captured objects\<close>

text \<open>
  A captured object is the \<^verbatim>\<open>Object\<close> field of an \<^verbatim>\<open>unstructured.Unstructured\<close>:
  a \<^verbatim>\<open>map[string]interface{}\<close> whose values are what the JSON decoder produces
  (nil, bool, int64, float64, string, []interface{}, map[string]interface{}).
  A Go map has no order and no duplicate keys, so it is a finite map. A float64 is
  kept as mantissa and binary exponent; the backup tool never inspects numbers.
\<close>

datatype val =
    VNull
  | VBool bool
  | VInt int
  | VFloat int int
  | VStr (str_of: string)
  | VList "val list"
  | VMap "(string, val) fmap"

type_synonym obj = "(string, val) fmap"

text \<open>The three outcomes of the accessors: \<^verbatim>\<open>(v, true, nil)\<close>, \<^verbatim>\<open>(nil, false, nil)\<close>
  and \<^verbatim>\<open>(nil, false, err)\<close>.\<close>

datatype 'a nested = Found 'a | NotFound | AccessErr

subsection \<open>The accessors of \<^verbatim>\<open>k8s.io/apimachinery/.../unstructured\<close> used by main.go\<close>

text \<open>
  \<^verbatim>\<open>
  func NestedFieldNoCopy(obj map[string]interface{}, fields ...string) (interface{}, bool, error) {
      var val interface{} = obj
      for i, field := range fields {
          if val == nil { return nil, false, nil }
          if m, ok := val.(map[string]interface{}); ok {
              val, ok = m[field]
              if !ok { return nil, false, nil }
          } else { return nil, false, fmt.Errorf(...) }
      }
      return val, true, nil
  }
  \<close>
  The function below takes the current \<^verbatim>\<open>val\<close>; the Go entry point starts it at the object.
\<close>

fun nestedFrom :: "val \<Rightarrow> string list \<Rightarrow> val nested" where
  "nestedFrom v [] = Found v"
| "nestedFrom VNull (f # fs) = NotFound"
| "nestedFrom (VMap m) (f # fs) =
     (case fmlookup m f of None \<Rightarrow> NotFound | Some v \<Rightarrow> nestedFrom v fs)"
| "nestedFrom _ (f # fs) = AccessErr"

definition NestedFieldNoCopy :: "obj \<Rightarrow> string list \<Rightarrow> val nested" where
  "NestedFieldNoCopy ob fields = nestedFrom (VMap ob) fields"

text \<open>
  \<^verbatim>\<open>
  func RemoveNestedField(obj map[string]interface{}, fields ...string) {
      m := obj
      for _, field := range fields[:len(fields)-1] {
          if x, ok := m[field].(map[string]interface{}); ok { m = x } else { return }
      }
      delete(m, fields[len(fields)-1])
  }
  \<close>
  The Go code mutates the nested map in place; the model rebuilds the path to it.
  With no field at all the slice expression panics: that is the result \<open>None\<close>.
\<close>

fun RemoveNestedField :: "obj \<Rightarrow> string list \<Rightarrow> obj option" where
  "RemoveNestedField m [] = None"
| "RemoveNestedField m [f] = Some (fmdrop f m)"
| "RemoveNestedField m (f # g # fs) =
     (case fmlookup m f of
        Some (VMap x) \<Rightarrow> map_option (\<lambda>x'. fmupd f (VMap x') m) (RemoveNestedField x (g # fs))
      | _ \<Rightarrow> Some m)"

text \<open>
  \<^verbatim>\<open>
  func setNestedFieldNoCopy(obj map[string]interface{}, value interface{}, fields ...string) error {
      m := obj
      for i, field := range fields[:len(fields)-1] {
          if val, ok := m[field]; ok {
              if valMap, ok := val.(map[string]interface{}); ok { m = valMap
              } else { return fmt.Errorf("value cannot be set because ...") }
          } else {
              newVal := make(map[string]interface{})
              m[field] = newVal
              m = newVal
          }
      }
      m[fields[len(fields)-1]] = value
      return nil
  }
  \<close>
  An error is met only on a path of maps that were already there, so it leaves the
  object as it was; the only caller here drops it. \<open>None\<close> is the panic on no field.
\<close>

fun setNestedFieldNoCopy :: "obj \<Rightarrow> val \<Rightarrow> string list \<Rightarrow> obj option" where
  "setNestedFieldNoCopy m v [] = None"
| "setNestedFieldNoCopy m v [f] = Some (fmupd f v m)"
| "setNestedFieldNoCopy m v (f # g # fs) =
     (case fmlookup m f of
        Some (VMap x) \<Rightarrow> map_option (\<lambda>x'. fmupd f (VMap x') m) (setNestedFieldNoCopy x v (g # fs))
      | Some _ \<Rightarrow> Some m
      | None \<Rightarrow> map_option (\<lambda>x'. fmupd f (VMap x') m) (setNestedFieldNoCopy fmempty v (g # fs)))"

text \<open>
  \<^verbatim>\<open>
  func nestedMapNoCopy(obj, tolerateNil bool, fields ...string) (map[string]interface{}, bool, error) {
      val, found, err := NestedFieldNoCopy(obj, fields...)
      if !found || err != nil { return nil, found, err }
      m, ok := val.(map[string]interface{})
      if !ok {
          if val == nil && tolerateNil { return nil, true, nil }
          return nil, false, fmt.Errorf(...)
      }
      return m, true, nil
  }
  func NestedStringMap(obj, fields ...string) (map[string]string, bool, error) {
      m, found, err := nestedMapNoCopy(obj, false, fields...)
      if !found || err != nil { return nil, found, err }
      strMap := make(map[string]string, len(m))
      for k, v := range m {
          if str, ok := v.(string); ok { strMap[k] = str
          } else { return nil, false, fmt.Errorf(...) }
      }
      return strMap, true, nil
  }
  \<close>
\<close>

definition nestedMapNoCopy :: "obj \<Rightarrow> bool \<Rightarrow> string list \<Rightarrow> obj option nested" where
  "nestedMapNoCopy ob tolerateNil fields =
     (case NestedFieldNoCopy ob fields of
        Found (VMap m) \<Rightarrow> Found (Some m)
      | Found VNull \<Rightarrow> (if tolerateNil then Found None else AccessErr)
      | Found _ \<Rightarrow> AccessErr
      | NotFound \<Rightarrow> NotFound
      | AccessErr \<Rightarrow> AccessErr)"

definition NestedStringMap :: "obj \<Rightarrow> string list \<Rightarrow> (string, string) fmap nested" where
  "NestedStringMap ob fields =
     (case nestedMapNoCopy ob False fields of
        Found (Some m) \<Rightarrow>
          (if fmpred (\<lambda>k v. is_VStr v) m then Found (fmmap str_of m) else AccessErr)
      | Found None \<Rightarrow> AccessErr
      | NotFound \<Rightarrow> NotFound
      | AccessErr \<Rightarrow> AccessErr)"

text \<open>
  \<^verbatim>\<open>
  func SetNestedStringMap(obj, value map[string]string, fields ...string) error {
      m := make(map[string]interface{}, len(value))
      for k, v := range value { m[k] = v }
      return setNestedFieldNoCopy(obj, m, fields...)
  }
  func (u *Unstructured) setNestedMap(value map[string]string, fields ...string) {
      if u.Object == nil { u.Object = make(map[string]interface{}) }
      SetNestedStringMap(u.Object, value, fields...)
  }
  \<close>
  A nil \<^verbatim>\<open>Object\<close> reads like the empty map, and \<^verbatim>\<open>setNestedMap\<close> replaces it by one
  before writing, so nil and empty are the same value \<open>fmempty\<close> here.
\<close>

definition SetNestedStringMap :: "obj \<Rightarrow> (string, string) fmap \<Rightarrow> string list \<Rightarrow> obj option" where
  "SetNestedStringMap ob value fields = setNestedFieldNoCopy ob (VMap (fmmap VStr value)) fields"

definition setNestedMap :: "obj \<Rightarrow> (string, string) fmap \<Rightarrow> string list \<Rightarrow> obj option" where
  "setNestedMap ob value fields = SetNestedStringMap ob value fields"

text \<open>
  \<^verbatim>\<open>
  func (u *Unstructured) GetAnnotations() map[string]string {
      m, _, _ := NestedStringMap(u.Object, "metadata", "annotations")
      return m
  }
  func (u *Unstructured) SetAnnotations(annotations map[string]string) {
      if annotations == nil {
          RemoveNestedField(u.Object, "metadata", "annotations")
          return
      }
      u.setNestedMap(annotations, "metadata", "annotations")
  }
  \<close>
  and the same two for \<^verbatim>\<open>"labels"\<close>, as in the apimachinery releases that build with the
  Go 1.22 toolchain of the Dockerfile. The nil map is \<open>None\<close>: the getter yields it when the
  field is missing, is not a mapping, or holds a value that is not a string.
\<close>

definition GetAnnotations :: "obj \<Rightarrow> (string, string) fmap option" where
  "GetAnnotations ob =
     (case NestedStringMap ob [''metadata'', ''annotations''] of Found m \<Rightarrow> Some m | _ \<Rightarrow> None)"

definition SetAnnotations :: "obj \<Rightarrow> (string, string) fmap option \<Rightarrow> obj option" where
  "SetAnnotations ob annotations =
     (case annotations of
        None \<Rightarrow> RemoveNestedField ob [''metadata'', ''annotations'']
      | Some a \<Rightarrow> setNestedMap ob a [''metadata'', ''annotations''])"

definition GetLabels :: "obj \<Rightarrow> (string, string) fmap option" where
  "GetLabels ob =
     (case NestedStringMap ob [''metadata'', ''labels''] of Found m \<Rightarrow> Some m | _ \<Rightarrow> None)"

definition SetLabels :: "obj \<Rightarrow> (string, string) fmap option \<Rightarrow> obj option" where
  "SetLabels ob labels =
     (case labels of
        None \<Rightarrow> RemoveNestedField ob [''metadata'', ''labels'']
      | Some l \<Rightarrow> setNestedMap ob l [''metadata'', ''labels''])"

text \<open>\<^verbatim>\<open>GetName\<close> is \<^verbatim>\<open>getNestedString(u.Object, "metadata", "name")\<close>: the string there,
  and the empty string when the field is missing or is not a string.\<close>

definition GetName :: "obj \<Rightarrow> string" where
  "GetName ob =
     (case NestedFieldNoCopy ob [''metadata'', ''name''] of Found (VStr s) \<Rightarrow> s | _ \<Rightarrow> [])"

subsection \<open>\<^verbatim>\<open>strings.Split\<close> with a one-byte separator\<close>

fun Split :: "string \<Rightarrow> char \<Rightarrow> string list" where
  "Split [] sep = [[]]"
| "Split (c # cs) sep =
     (if c = sep then [] # Split cs sep
      else (case Split cs sep of [] \<Rightarrow> [[c]] | w # ws \<Rightarrow> (c # w) # ws))"

section \<open>The sanitizer (main.go, cleanResource and its helpers)\<close>

text \<open>Go's \<^verbatim>\<open>delete(m, key)\<close> in a loop over the keys; on the nil map it does nothing.\<close>

fun deleteKeys :: "(string, string) fmap option \<Rightarrow> string list \<Rightarrow> (string, string) fmap option" where
  "deleteKeys m [] = m"
| "deleteKeys m (key # keys) = deleteKeys (map_option (fmdrop key) m) keys"

definition removeAnnotations :: "obj \<Rightarrow> string list \<Rightarrow> obj option" where
  "removeAnnotations resource keys =
     (let annotations = GetAnnotations resource;
          annotations = deleteKeys annotations keys
      in SetAnnotations resource annotations)"

definition removeLabels :: "obj \<Rightarrow> string list \<Rightarrow> obj option" where
  "removeLabels resource keys =
     (let labels = GetLabels resource;
          labels = deleteKeys labels keys
      in SetLabels resource labels)"

fun removeEmptyFields :: "obj \<Rightarrow> string list \<Rightarrow> obj option" where
  "removeEmptyFields resource [] = Some resource"
| "removeEmptyFields resource (field # fields) =
     (case NestedFieldNoCopy resource (Split field (CHR ''.'')) of
        Found (VMap objMap) \<Rightarrow>
          (if objMap = fmempty
           then do { r \<leftarrow> RemoveNestedField resource (Split field (CHR ''.''));
                     removeEmptyFields r fields }
           else removeEmptyFields resource fields)
      | _ \<Rightarrow> removeEmptyFields resource fields)"

definition blockedAnnotations :: "string list" where
  "blockedAnnotations =
     [''objectset.rio.cattle.io/applied'',
      ''objectset.rio.cattle.io/id'',
      ''objectset.rio.cattle.io/hash'',
      ''cattle.io.timestamp'']"

definition blockedLabels :: "string list" where
  "blockedLabels = [''objectset.rio.cattle.io/hash'']"

definition cleanResource :: "obj \<Rightarrow> obj option" where
  "cleanResource resource = do {
     r \<leftarrow> RemoveNestedField resource [''metadata'', ''resourceVersion''];
     r \<leftarrow> RemoveNestedField r [''metadata'', ''uid''];
     r \<leftarrow> RemoveNestedField r [''metadata'', ''selfLink''];
     r \<leftarrow> RemoveNestedField r [''metadata'', ''creationTimestamp''];
     r \<leftarrow> RemoveNestedField r [''metadata'', ''generation''];
     r \<leftarrow> RemoveNestedField r [''status''];
     r \<leftarrow> RemoveNestedField r [''metadata'', ''managedFields''];
     r \<leftarrow> removeAnnotations r blockedAnnotations;
     r \<leftarrow> removeLabels r blockedLabels;
     removeEmptyFields r [''metadata.annotations'', ''metadata.labels'']
   }"

subsection \<open>Field paths, for stating what the sanitizer removes and keeps\<close>

text \<open>A field path is present when the accessor finds a value there (which may be nil).\<close>

definition hasField :: "obj \<Rightarrow> string list \<Rightarrow> bool" where
  "hasField ob path = (case NestedFieldNoCopy ob path of Found _ \<Rightarrow> True | _ \<Rightarrow> False)"

definition fieldAt :: "obj \<Rightarrow> string list \<Rightarrow> val option" where
  "fieldAt ob path = (case NestedFieldNoCopy ob path of Found v \<Rightarrow> Some v | _ \<Rightarrow> None)"

text \<open>The removal policy of \<^verbatim>\<open>cleanResource\<close> as a table of paths, in the order of the calls.\<close>

definition blockedFieldPaths :: "string list list" where
  "blockedFieldPaths =
     [[''metadata'', ''resourceVersion''], [''metadata'', ''uid''], [''metadata'', ''selfLink''],
      [''metadata'', ''creationTimestamp''], [''metadata'', ''generation''], [''status''],
      [''metadata'', ''managedFields'']]"

definition blockedKeyPaths :: "string list list" where
  "blockedKeyPaths =
     map (\<lambda>k. [''metadata'', ''annotations'', k]) blockedAnnotations @
     map (\<lambda>k. [''metadata'', ''labels'', k]) blockedLabels"

definition blockedPaths :: "string list list" where
  "blockedPaths = blockedFieldPaths @ blockedKeyPaths"

text \<open>An object with none of the blocked fields and none of the blocked keys.\<close>

definition hasNoBlocked :: "obj \<Rightarrow> bool" where
  "hasNoBlocked r = (\<not> list_ex (hasField r) blockedPaths)"

text \<open>
  \<open>stringMapField r f\<close>: the field \<^verbatim>\<open>metadata.f\<close>, when present, is a mapping whose values
  are all strings, as the \<^verbatim>\<open>map[string]string\<close> of \<^verbatim>\<open>ObjectMeta\<close> is.
  \<open>emptyMapField r f\<close>: it is present and is the empty mapping.
\<close>

definition stringMapField :: "obj \<Rightarrow> string \<Rightarrow> bool" where
  "stringMapField r f =
     (case NestedFieldNoCopy r [''metadata'', f] of
        Found (VMap a) \<Rightarrow> fmpred (\<lambda>k v. is_VStr v) a
      | Found _ \<Rightarrow> False
      | _ \<Rightarrow> True)"

definition emptyMapField :: "obj \<Rightarrow> string \<Rightarrow> bool" where
  "emptyMapField r f = (NestedFieldNoCopy r [''metadata'', f] = Found (VMap fmempty))"

text \<open>
  \<open>related p\<close>: the path lies on, above or below a blocked path, so the sanitizer may
  change what is found there. \<open>underBlocked p\<close>: it lies on or below one.
  \<open>emptied r p\<close>: \<open>p\<close> is the annotations or the labels mapping of \<open>r\<close> and every key of it is
  blocked, so that it becomes empty.
\<close>

definition related :: "string list \<Rightarrow> bool" where
  "related p = list_ex (\<lambda>b. prefix b p \<or> prefix p b) blockedPaths"

definition underBlocked :: "string list \<Rightarrow> bool" where
  "underBlocked p = list_ex (\<lambda>b. prefix b p) blockedPaths"

definition emptied :: "obj \<Rightarrow> string list \<Rightarrow> bool" where
  "emptied r p =
     ((p = [''metadata'', ''annotations''] \<and>
         (case fieldAt r p of Some (VMap a) \<Rightarrow> fmpred (\<lambda>k v. k \<in> set blockedAnnotations) a | _ \<Rightarrow> False)) \<or>
      (p = [''metadata'', ''labels''] \<and>
         (case fieldAt r p of Some (VMap a) \<Rightarrow> fmpred (\<lambda>k v. k \<in> set blockedLabels) a | _ \<Rightarrow> False)))"

subsection \<open>A closed form of the sanitizer, used in the proofs\<close>

definition onMeta :: "(obj \<Rightarrow> obj) \<Rightarrow> obj \<Rightarrow> obj" where
  "onMeta f r =
     (case fmlookup r ''metadata'' of Some (VMap m) \<Rightarrow> fmupd ''metadata'' (VMap (f m)) r | _ \<Rightarrow> r)"

definition setOrDrop :: "string \<Rightarrow> val option \<Rightarrow> obj \<Rightarrow> obj" where
  "setOrDrop k v m = (case v of None \<Rightarrow> fmdrop k m | Some x \<Rightarrow> fmupd k x m)"

definition stripKeys :: "string list \<Rightarrow> val option \<Rightarrow> val option" where
  "stripKeys keys v =
     (case v of
        Some (VMap a) \<Rightarrow>
          if fmpred (\<lambda>k v. is_VStr v) a then Some (VMap (fmfilter (\<lambda>k. k \<notin> set keys) a)) else None
      | _ \<Rightarrow> None)"

definition dropIfEmpty :: "string \<Rightarrow> obj \<Rightarrow> obj" where
  "dropIfEmpty k m =
     (case fmlookup m k of Some (VMap e) \<Rightarrow> if e = fmempty then fmdrop k m else m | _ \<Rightarrow> m)"

definition removedMetaKeys :: "string list" where
  "removedMetaKeys =
     [''resourceVersion'', ''uid'', ''selfLink'', ''creationTimestamp'', ''generation'', ''managedFields'']"

definition cleanMeta :: "obj \<Rightarrow> obj" where
  "cleanMeta m =
    (let m = fmdrop ''resourceVersion'' m;
         m = fmdrop ''uid'' m;
         m = fmdrop ''selfLink'' m;
         m = fmdrop ''creationTimestamp'' m;
         m = fmdrop ''generation'' m;
         m = fmdrop ''managedFields'' m;
         m = setOrDrop ''annotations'' (stripKeys blockedAnnotations (fmlookup m ''annotations'')) m;
         m = setOrDrop ''labels'' (stripKeys blockedLabels (fmlookup m ''labels'')) m;
         m = dropIfEmpty ''annotations'' m
     in dropIfEmpty ''labels'' m)"

definition finalStr :: "string list \<Rightarrow> val option \<Rightarrow> val option" where
  "finalStr keys v =
     (case v of
        Some (VMap a) \<Rightarrow>
          if fmpred (\<lambda>k v. is_VStr v) a \<and> fmfilter (\<lambda>k. k \<notin> set keys) a \<noteq> fmempty
          then Some (VMap (fmfilter (\<lambda>k. k \<notin> set keys) a)) else None
      | _ \<Rightarrow> None)"

subsection \<open>Example objects\<close>

definition ex_empty_ann :: obj where
  "ex_empty_ann = fmap_of_list [(''metadata'', VMap (fmap_of_list [(''annotations'', VMap fmempty)]))]"

definition ex_deployment :: obj where
  "ex_deployment = fmap_of_list
     [(''apiVersion'', VStr ''apps/v1''),
      (''kind'', VStr ''Deployment''),
      (''metadata'', VMap (fmap_of_list
         [(''name'', VStr ''web''),
          (''namespace'', VStr ''ns-a''),
          (''uid'', VStr ''0a1b''),
          (''resourceVersion'', VStr ''42''),
          (''generation'', VInt 1),
          (''labels'', VMap (fmap_of_list
             [(''app'', VStr ''web''), (''objectset.rio.cattle.io/hash'', VStr ''h1'')])),
          (''annotations'', VMap (fmap_of_list
             [(''objectset.rio.cattle.io/id'', VStr ''x'')]))])),
      (''spec'', VMap (fmap_of_list [(''replicas'', VInt 2)])),
      (''status'', VMap (fmap_of_list [(''readyReplicas'', VInt 2)]))]"

definition ex_deployment_clean :: obj where
  "ex_deployment_clean = fmap_of_list
     [(''apiVersion'', VStr ''apps/v1''),
      (''kind'', VStr ''Deployment''),
      (''metadata'', VMap (fmap_of_list
         [(''name'', VStr ''web''),
          (''namespace'', VStr ''ns-a''),
          (''labels'', VMap (fmap_of_list [(''app'', VStr ''web'')]))])),
      (''spec'', VMap (fmap_of_list [(''replicas'', VInt 2)]))]"

definition ex_numeric_ann :: obj where
  "ex_numeric_ann = fmap_of_list
     [(''metadata'', VMap (fmap_of_list
         [(''annotations'', VMap (fmap_of_list [(''note'', VInt 1)]))]))]"

definition ex_only_blocked :: obj where
  "ex_only_blocked = fmap_of_list
     [(''kind'', VStr ''ConfigMap''),
      (''metadata'', VMap (fmap_of_list
         [(''name'', VStr ''cm''),
          (''annotations'', VMap (fmap_of_list
             [(''objectset.rio.cattle.io/id'', VStr ''x''), (''cattle.io.timestamp'', VStr ''t'')])),
          (''labels'', VMap (fmap_of_list [(''objectset.rio.cattle.io/hash'', VStr ''h1'')]))]))]"

section \<open>Strings and paths (Go's \<^verbatim>\<open>strings\<close> and \<^verbatim>\<open>path/filepath\<close> on Unix)\<close>

text \<open>The tool is built for Linux and macOS only (Dockerfile, Makefile), where
  \<^verbatim>\<open>filepath.Separator\<close> is the forward slash.\<close>

text \<open>Go's \<^verbatim>\<open>[]byte\<close>; a \<^typ>\<open>char\<close> is one byte.\<close>

type_synonym bytes = string

definition Separator :: char where
  "Separator = CHR ''/''"

text \<open>\<^verbatim>\<open>strings.TrimPrefix(s, prefix)\<close>: \<open>s\<close> without the leading \<open>prefix\<close>, or \<open>s\<close> itself.\<close>

definition TrimPrefix :: "string \<Rightarrow> string \<Rightarrow> string" where
  "TrimPrefix s pre = (if prefix pre s then drop (length pre) s else s)"

text \<open>\<^verbatim>\<open>strings.Join(elems, "/")\<close>.\<close>

fun joinSep :: "string list \<Rightarrow> string" where
  "joinSep [] = []"
| "joinSep [e] = e"
| "joinSep (e # f # es) = e @ Separator # joinSep (f # es)"

text \<open>
  \<^verbatim>\<open>filepath.Clean\<close>: the shortest equivalent path, by lexical processing alone. Go walks the
  bytes of the path and keeps an output buffer; between two separators it sees one path
  element, and treats it by these cases, which the model applies to the list of elements:
  \<^item> an empty element or \<^verbatim>\<open>.\<close> is dropped;
  \<^item> \<^verbatim>\<open>..\<close> removes the last element of the output when there is one that is not itself
    \<^verbatim>\<open>..\<close> (\<^verbatim>\<open>out.w > dotdot\<close>); otherwise it is appended when the path is not rooted, and
    dropped when it is;
  \<^item> any other element is appended.
  The output elements are joined by single separators, after the root separator if the path
  is rooted; an empty result is \<^verbatim>\<open>.\<close>.
\<close>

fun cleanElems :: "bool \<Rightarrow> string list \<Rightarrow> string list \<Rightarrow> string list" where
  "cleanElems rooted out [] = out"
| "cleanElems rooted out (e # es) =
     (if e = [] \<or> e = ''.'' then cleanElems rooted out es
      else if e = ''..'' then
        (if out \<noteq> [] \<and> last out \<noteq> ''..'' then cleanElems rooted (butlast out) es
         else if \<not> rooted then cleanElems rooted (out @ [''..'']) es
         else cleanElems rooted out es)
      else cleanElems rooted (out @ [e]) es)"

definition Clean :: "string \<Rightarrow> string" where
  "Clean path =
     (let rooted = (path \<noteq> [] \<and> hd path = Separator);
          out = cleanElems rooted [] (Split path Separator)
      in if rooted then Separator # joinSep out
         else if out = [] then ''.''
         else joinSep out)"

text \<open>
  \<^verbatim>\<open>
  func join(elem []string) string {
      for i, e := range elem {
          if e != "" { return Clean(strings.Join(elem[i:], string(Separator))) }
      }
      return ""
  }
  \<close>
\<close>

fun Join :: "string list \<Rightarrow> string" where
  "Join [] = []"
| "Join (e # es) = (if e = [] then Join es else Clean (joinSep (e # es)))"

text \<open>A name as a directory listing gives it: not empty, no separator in it, and
  neither \<^verbatim>\<open>.\<close> nor \<^verbatim>\<open>..\<close>.\<close>

definition validName :: "string \<Rightarrow> bool" where
  "validName n = (n \<noteq> [] \<and> Separator \<notin> set n \<and> n \<noteq> ''.'' \<and> n \<noteq> ''..'')"

text \<open>A directory path that \<^verbatim>\<open>Clean\<close> leaves as it is, other than \<^verbatim>\<open>.\<close> and the root.\<close>

definition cleanDir :: "string \<Rightarrow> bool" where
  "cleanDir p = (Clean p = p \<and> p \<noteq> ''.'' \<and> p \<noteq> [Separator])"

section \<open>The cluster walker (main.go, main from the namespace loop on)\<close>

subsection \<open>\<^verbatim>\<open>strings.TrimSpace\<close>\<close>

text \<open>
  The UTF-8 encodings of the code points for which \<^verbatim>\<open>unicode.IsSpace\<close> holds: tab, line
  feed, vertical tab, form feed, carriage return, space, U+0085, U+00A0, U+1680, U+2000 to
  U+200A, U+2028, U+2029, U+202F, U+205F and U+3000. A leading (trailing) rune is one of
  them exactly when the string starts (ends) with its encoding.
\<close>

definition whiteSpace :: "string list" where
  "whiteSpace =
     [[CHR 0x09], [CHR 0x0A], [CHR 0x0B], [CHR 0x0C], [CHR 0x0D], [CHR 0x20],
      [CHR 0xC2, CHR 0x85], [CHR 0xC2, CHR 0xA0], [CHR 0xE1, CHR 0x9A, CHR 0x80],
      [CHR 0xE2, CHR 0x80, CHR 0x80], [CHR 0xE2, CHR 0x80, CHR 0x81], [CHR 0xE2, CHR 0x80, CHR 0x82],
      [CHR 0xE2, CHR 0x80, CHR 0x83], [CHR 0xE2, CHR 0x80, CHR 0x84], [CHR 0xE2, CHR 0x80, CHR 0x85],
      [CHR 0xE2, CHR 0x80, CHR 0x86], [CHR 0xE2, CHR 0x80, CHR 0x87], [CHR 0xE2, CHR 0x80, CHR 0x88],
      [CHR 0xE2, CHR 0x80, CHR 0x89], [CHR 0xE2, CHR 0x80, CHR 0x8A], [CHR 0xE2, CHR 0x80, CHR 0xA8],
      [CHR 0xE2, CHR 0x80, CHR 0xA9], [CHR 0xE2, CHR 0x80, CHR 0xAF], [CHR 0xE2, CHR 0x81, CHR 0x9F],
      [CHR 0xE3, CHR 0x80, CHR 0x80]]"

fun trimLeading :: "string list \<Rightarrow> string \<Rightarrow> string" where
  "trimLeading ws (a # b # c # s) =
     (if [a] \<in> set ws then trimLeading ws (b # c # s)
      else if [a, b] \<in> set ws then trimLeading ws (c # s)
      else if [a, b, c] \<in> set ws then trimLeading ws s
      else a # b # c # s)"
| "trimLeading ws [a, b] =
     (if [a] \<in> set ws then trimLeading ws [b]
      else if [a, b] \<in> set ws then []
      else [a, b])"
| "trimLeading ws [a] = (if [a] \<in> set ws then [] else [a])"
| "trimLeading ws [] = []"

definition TrimSpace :: "string \<Rightarrow> string" where
  "TrimSpace s = rev (trimLeading (map rev whiteSpace) (rev (trimLeading whiteSpace s)))"

subsection \<open>The world outside and the state of the run\<close>

record gvr =
  Group :: string
  Version :: string
  Resource :: string

definition resourceTypes :: "gvr list" where
  "resourceTypes =
     [\<lparr>Group = ''apps'', Version = ''v1'', Resource = ''deployments''\<rparr>,
      \<lparr>Group = ''apps'', Version = ''v1'', Resource = ''daemonsets''\<rparr>,
      \<lparr>Group = ''apps'', Version = ''v1'', Resource = ''statefulsets''\<rparr>,
      \<lparr>Group = ''batch'', Version = ''v1'', Resource = ''jobs''\<rparr>,
      \<lparr>Group = ''batch'', Version = ''v1'', Resource = ''cronjobs''\<rparr>,
      \<lparr>Group = '''', Version = ''v1'', Resource = ''pods''\<rparr>,
      \<lparr>Group = '''', Version = ''v1'', Resource = ''services''\<rparr>,
      \<lparr>Group = '''', Version = ''v1'', Resource = ''configmaps''\<rparr>,
      \<lparr>Group = '''', Version = ''v1'', Resource = ''secrets''\<rparr>,
      \<lparr>Group = '''', Version = ''v1'', Resource = ''persistentvolumeclaims''\<rparr>,
      \<lparr>Group = ''networking.istio.io'', Version = ''v1'', Resource = ''virtualservices''\<rparr>,
      \<lparr>Group = ''networking.istio.io'', Version = ''v1'', Resource = ''gateways''\<rparr>,
      \<lparr>Group = ''networking.istio.io'', Version = ''v1'', Resource = ''destinationrules''\<rparr>,
      \<lparr>Group = ''networking.istio.io'', Version = ''v1alpha3'', Resource = ''envoyfilters''\<rparr>,
      \<lparr>Group = ''networking.k8s.io'', Version = ''v1'', Resource = ''ingresses''\<rparr>,
      \<lparr>Group = '''', Version = ''v1'', Resource = ''serviceaccounts''\<rparr>,
      \<lparr>Group = ''rbac.authorization.k8s.io'', Version = ''v1'', Resource = ''roles''\<rparr>,
      \<lparr>Group = ''rbac.authorization.k8s.io'', Version = ''v1'', Resource = ''rolebindings''\<rparr>,
      \<lparr>Group = ''rbac.authorization.k8s.io'', Version = ''v1'', Resource = ''clusterroles''\<rparr>,
      \<lparr>Group = ''rbac.authorization.k8s.io'', Version = ''v1'', Resource = ''clusterrolebindings''\<rparr>,
      \<lparr>Group = ''apiextensions.k8s.io'', Version = ''v1'', Resource = ''customresourcedefinitions''\<rparr>,
      \<lparr>Group = '''', Version = ''v1'', Resource = ''persistentvolumes''\<rparr>,
      \<lparr>Group = ''apiregistration.k8s.io'', Version = ''v1'', Resource = ''apiservices''\<rparr>,
      \<lparr>Group = ''networking.k8s.io'', Version = ''v1'', Resource = ''ingressclasses''\<rparr>,
      \<lparr>Group = ''storage.k8s.io'', Version = ''v1'', Resource = ''storageclasses''\<rparr>,
      \<lparr>Group = ''networking.k8s.io'', Version = ''v1'', Resource = ''networkpolicies''\<rparr>]"

text \<open>
  What the walk asks of the file system, of the YAML encoder and of the cluster:
  \<^item> \<open>os_MkdirAll\<close>, \<open>os_Create\<close>: whether the call on this path succeeds;
  \<^item> \<open>yaml_Marshal\<close>: the document for an object, \<open>None\<close> when encoding fails;
  \<^item> \<open>file_Write\<close>: \<open>None\<close> when all the bytes are written, \<open>Some n\<close> when the write fails
    after \<open>n\<close> bytes;
  \<^item> \<open>api_Get\<close>: the Namespace object of that name, \<open>None\<close> on an error;
  \<^item> \<open>api_List\<close>: the items of one resource kind in one namespace, \<open>None\<close> on an error.
\<close>

record cluster_world =
  os_MkdirAll :: "string \<Rightarrow> bool"
  os_Create :: "string \<Rightarrow> bool"
  yaml_Marshal :: "obj \<Rightarrow> bytes option"
  file_Write :: "string \<Rightarrow> bytes \<Rightarrow> nat option"
  api_Get :: "string \<Rightarrow> obj option"
  api_List :: "gvr \<Rightarrow> string \<Rightarrow> obj list option"

datatype save_error = ErrCreate | ErrEncode | ErrWrite

datatype namespace_error = ErrGetNamespace | ErrSaveOriginal save_error | ErrSaveModified save_error

text \<open>The lines the walk prints, one constructor for each \<^verbatim>\<open>Printf\<close> in the loop (the text of
  the error value is left out), and the calls it makes on the file system.\<close>

datatype event =
    ProcessingNamespace string
  | NamespaceDirError string
  | SaveNamespaceError string namespace_error
  | ProcessingResourceType string
  | ListError string string
  | NoneFound string string
  | ResourceDirError string
  | SavingResource string
  | SaveOriginalError string
  | SaveModifiedError string
  | CallMkdirAll string bool
  | CallCreate string bool

record disk =
  file_data :: "(string, bytes) fmap"
  trace :: "event list"

definition emit :: "event \<Rightarrow> disk \<Rightarrow> disk" where
  "emit e st = st\<lparr>trace := trace st @ [e]\<rparr>"

definition put_file :: "string \<Rightarrow> bytes \<Rightarrow> disk \<Rightarrow> disk" where
  "put_file path content st = st\<lparr>file_data := fmupd path content (file_data st)\<rparr>"

subsection \<open>saveResourceAsYAML\<close>

text \<open>\<^verbatim>\<open>os.Create\<close> truncates the file; then the object is encoded and written.\<close>

definition saveResourceAsYAML ::
    "cluster_world \<Rightarrow> obj \<Rightarrow> string \<Rightarrow> disk \<Rightarrow> save_error option \<times> disk" where
  "saveResourceAsYAML w resource filePath st =
     (if \<not> os_Create w filePath then (Some ErrCreate, emit (CallCreate filePath False) st)
      else let st = put_file filePath [] (emit (CallCreate filePath True) st) in
        (case yaml_Marshal w resource of
           None \<Rightarrow> (Some ErrEncode, st)
         | Some yamlData \<Rightarrow>
             (case file_Write w filePath yamlData of
                Some n \<Rightarrow> (Some ErrWrite, put_file filePath (take n yamlData) st)
              | None \<Rightarrow> (None, put_file filePath yamlData st))))"

subsection \<open>saveNamespaceResource\<close>

text \<open>The object fetched is written first; the sanitizer then works on a deep copy. A panic
  of the sanitizer would end the program: that is the result \<open>None\<close>, here and below.\<close>

definition saveNamespaceResource ::
    "cluster_world \<Rightarrow> string \<Rightarrow> string \<Rightarrow> string \<Rightarrow> disk \<Rightarrow> (namespace_error option \<times> disk) option" where
  "saveNamespaceResource w namespace originalDir modifiedDir st =
     (case api_Get w namespace of
        None \<Rightarrow> Some (Some ErrGetNamespace, st)
      | Some namespaceRes \<Rightarrow>
          let originalFilePath = Join [originalDir, namespace @ ''.yaml''];
              (err, st) = saveResourceAsYAML w namespaceRes originalFilePath st
          in (case err of
                Some e \<Rightarrow> Some (Some (ErrSaveOriginal e), st)
              | None \<Rightarrow>
                  (case cleanResource namespaceRes of
                     None \<Rightarrow> None
                   | Some modifiedNamespaceRes \<Rightarrow>
                       let modifiedFilePath = Join [modifiedDir, namespace @ ''.yaml''];
                           (err, st) = saveResourceAsYAML w modifiedNamespaceRes modifiedFilePath st
                       in (case err of
                             Some e \<Rightarrow> Some (Some (ErrSaveModified e), st)
                           | None \<Rightarrow> Some (None, st)))))"

subsection \<open>The loops of main\<close>

text \<open>Lines 169 to 188: each item is written as fetched, sanitized in place, and written
  again under the other directory.\<close>

definition saveItem :: "cluster_world \<Rightarrow> string \<Rightarrow> string \<Rightarrow> obj \<Rightarrow> disk \<Rightarrow> disk option" where
  "saveItem w originalResourceDir modifiedResourceDir item st =
     (let originalFilePath = Join [originalResourceDir, GetName item @ ''.yaml''];
          modifiedFilePath = Join [modifiedResourceDir, GetName item @ ''.yaml''];
          st = emit (SavingResource originalFilePath) st;
          (err, st) = saveResourceAsYAML w item originalFilePath st;
          st = (if err \<noteq> None then emit (SaveOriginalError (GetName item)) st else st)
      in (case cleanResource item of
            None \<Rightarrow> None
          | Some item \<Rightarrow>
              let (err, st) = saveResourceAsYAML w item modifiedFilePath st;
                  st = (if err \<noteq> None then emit (SaveModifiedError (GetName item)) st else st)
              in Some st))"

fun saveItems :: "cluster_world \<Rightarrow> string \<Rightarrow> string \<Rightarrow> obj list \<Rightarrow> disk \<Rightarrow> disk option" where
  "saveItems w originalResourceDir modifiedResourceDir [] st = Some st"
| "saveItems w originalResourceDir modifiedResourceDir (item # items) st =
     (case saveItem w originalResourceDir modifiedResourceDir item st of
        None \<Rightarrow> None
      | Some st \<Rightarrow> saveItems w originalResourceDir modifiedResourceDir items st)"

text \<open>Lines 127 to 133 and 160 to 166: the directories are made one after the other; a
  failure is printed, and \<^verbatim>\<open>continue\<close> goes on to the next directory of this inner loop.\<close>

fun makeDirs :: "cluster_world \<Rightarrow> event \<Rightarrow> string list \<Rightarrow> disk \<Rightarrow> disk" where
  "makeDirs w complaint [] st = st"
| "makeDirs w complaint (dir # dirs) st =
     (if \<not> os_MkdirAll w dir
      then makeDirs w complaint dirs (emit complaint (emit (CallMkdirAll dir False) st))
      else makeDirs w complaint dirs (emit (CallMkdirAll dir True) st))"

text \<open>Lines 142 to 189, the body for one resource kind.\<close>

definition saveResourceType ::
    "cluster_world \<Rightarrow> string \<Rightarrow> string \<Rightarrow> string \<Rightarrow> gvr \<Rightarrow> disk \<Rightarrow> disk option" where
  "saveResourceType w namespace originalNamespaceDir modifiedNamespaceDir res st =
     (let st = emit (ProcessingResourceType (Resource res)) st
      in (case api_List w res namespace of
            None \<Rightarrow> Some (emit (ListError (Resource res) namespace) st)
          | Some items \<Rightarrow>
              if length items = 0 then Some (emit (NoneFound (Resource res) namespace) st)
              else let originalResourceDir = Join [originalNamespaceDir, Resource res];
                       modifiedResourceDir = Join [modifiedNamespaceDir, Resource res];
                       st = makeDirs w (ResourceDirError (Resource res))
                              [originalResourceDir, modifiedResourceDir] st
                   in saveItems w originalResourceDir modifiedResourceDir items st))"

fun saveResourceTypes ::
    "cluster_world \<Rightarrow> string \<Rightarrow> string \<Rightarrow> string \<Rightarrow> gvr list \<Rightarrow> disk \<Rightarrow> disk option" where
  "saveResourceTypes w namespace ond mnd [] st = Some st"
| "saveResourceTypes w namespace ond mnd (res # rest) st =
     (case saveResourceType w namespace ond mnd res st of
        None \<Rightarrow> None
      | Some st \<Rightarrow> saveResourceTypes w namespace ond mnd rest st)"

text \<open>Lines 119 to 190, the body for one namespace.\<close>

definition saveNamespace :: "cluster_world \<Rightarrow> string \<Rightarrow> string \<Rightarrow> string \<Rightarrow> disk \<Rightarrow> disk option" where
  "saveNamespace w originalDir modifiedDir namespace st =
     (let namespace = TrimSpace namespace;
          st = emit (ProcessingNamespace namespace) st;
          originalNamespaceDir = Join [originalDir, namespace];
          modifiedNamespaceDir = Join [modifiedDir, namespace];
          st = makeDirs w (NamespaceDirError namespace) [originalNamespaceDir, modifiedNamespaceDir] st
      in (case saveNamespaceResource w namespace originalNamespaceDir modifiedNamespaceDir st of
            None \<Rightarrow> None
          | Some (err, st) \<Rightarrow>
              let st = (case err of
                          Some e \<Rightarrow> emit (SaveNamespaceError namespace e) st
                        | None \<Rightarrow> st)
              in saveResourceTypes w namespace originalNamespaceDir modifiedNamespaceDir resourceTypes st))"

fun saveNamespaces :: "cluster_world \<Rightarrow> string \<Rightarrow> string \<Rightarrow> string list \<Rightarrow> disk \<Rightarrow> disk option" where
  "saveNamespaces w originalDir modifiedDir [] st = Some st"
| "saveNamespaces w originalDir modifiedDir (namespace # namespaceList) st =
     (case saveNamespace w originalDir modifiedDir namespace st of
        None \<Rightarrow> None
      | Some st \<Rightarrow> saveNamespaces w originalDir modifiedDir namespaceList st)"

text \<open>The walk of \<^verbatim>\<open>main\<close> over the namespace list, under \<^verbatim>\<open>resources/original\<close> and
  \<^verbatim>\<open>resources/modified\<close>, from an empty output tree.\<close>

definition baseOutputDir :: string where
  "baseOutputDir = ''resources''"

definition captureCluster :: "cluster_world \<Rightarrow> string list \<Rightarrow> disk option" where
  "captureCluster w namespaceList =
     saveNamespaces w (Join [baseOutputDir, ''original'']) (Join [baseOutputDir, ''modified''])
       namespaceList \<lparr>file_data = fmempty, trace = []\<rparr>"

subsection \<open>The two halves of the loop body for one item, used in the proofs\<close>

definition afterOriginal :: "cluster_world \<Rightarrow> string \<Rightarrow> obj \<Rightarrow> disk \<Rightarrow> disk" where
  "afterOriginal w od item st =
     (let op = Join [od, GetName item @ ''.yaml''];
          a = saveResourceAsYAML w item op (emit (SavingResource op) st)
      in if fst a \<noteq> None then emit (SaveOriginalError (GetName item)) (snd a) else snd a)"

definition afterModified :: "cluster_world \<Rightarrow> string \<Rightarrow> obj \<Rightarrow> obj \<Rightarrow> disk \<Rightarrow> disk" where
  "afterModified w md item r' s2 =
     (let b = saveResourceAsYAML w r' (Join [md, GetName item @ ''.yaml'']) s2
      in if fst b \<noteq> None then emit (SaveModifiedError (GetName r')) (snd b) else snd b)"


subsection \<open>Example world\<close>

text \<open>A stand-in for the YAML encoder in the examples: it lists which of a few paths the
  object holds, so that an object and its sanitized variant get different documents.\<close>

definition ex_Marshal :: "obj \<Rightarrow> bytes option" where
  "ex_Marshal ob =
     Some (concat (map (\<lambda>p. if hasField ob p then joinSep p @ '';'' else [])
             [[''kind''], [''metadata'', ''name''], [''metadata'', ''uid''], [''spec''], [''status'']]))"

definition ex_namespace :: obj where
  "ex_namespace = fmap_of_list
     [(''apiVersion'', VStr ''v1''),
      (''kind'', VStr ''Namespace''),
      (''metadata'', VMap (fmap_of_list [(''name'', VStr ''ns-a''), (''uid'', VStr ''77aa'')])),
      (''status'', VMap (fmap_of_list [(''phase'', VStr ''Active'')]))]"

text \<open>A cluster with the namespace \<^verbatim>\<open>ns-a\<close> holding the Deployment \<^verbatim>\<open>web\<close> and nothing else,
  and a file system on which everything works.\<close>

definition ex_world :: cluster_world where
  "ex_world =
     \<lparr>os_MkdirAll = (\<lambda>p. True), os_Create = (\<lambda>p. True), yaml_Marshal = ex_Marshal,
      file_Write = (\<lambda>p d. None),
      api_Get = (\<lambda>n. if n = ''ns-a'' then Some ex_namespace else None),
      api_List = (\<lambda>g n. if n = ''ns-a'' \<and> Resource g = ''deployments'' then Some [ex_deployment]
                          else Some [])\<rparr>"

text \<open>The same cluster when \<^verbatim>\<open>resources/original/ns-a\<close> cannot be created: \<^verbatim>\<open>MkdirAll\<close> fails
  on it and below it, and so does \<^verbatim>\<open>os.Create\<close> below it.\<close>

definition ex_world_nodir :: cluster_world where
  "ex_world_nodir =
     ex_world\<lparr>os_MkdirAll := (\<lambda>p. \<not> prefix ''resources/original/ns-a'' p),
               os_Create := (\<lambda>p. \<not> prefix ''resources/original/ns-a/'' p)\<rparr>"


subsection \<open>Reading the trace\<close>

text \<open>\<open>failedDirsUntouched\<close>: once \<^verbatim>\<open>MkdirAll\<close> has failed on a directory, the run makes no
  further call on a path below it. \<open>namespacesStarted\<close>: the namespaces the run announced,
  in order.\<close>

definition below :: "string \<Rightarrow> event \<Rightarrow> bool" where
  "below d e =
     (case e of
        CallCreate p ok \<Rightarrow> prefix (d @ [Separator]) p
      | CallMkdirAll p ok \<Rightarrow> prefix (d @ [Separator]) p
      | _ \<Rightarrow> False)"

fun failedDirsUntouched :: "event list \<Rightarrow> bool" where
  "failedDirsUntouched [] = True"
| "failedDirsUntouched (CallMkdirAll d False # es) =
     (\<not> list_ex (below d) es \<and> failedDirsUntouched es)"
| "failedDirsUntouched (e # es) = failedDirsUntouched es"

fun startedNamespace :: "event \<Rightarrow> string option" where
  "startedNamespace (ProcessingNamespace n) = Some n"
| "startedNamespace e = None"

definition namespacesStarted :: "event list \<Rightarrow> string list" where
  "namespacesStarted es = List.map_filter startedNamespace es"

section \<open>The archiver (main.go, ZipDirectory)\<close>

text \<open>
  The source tree as \<^verbatim>\<open>filepath.Walk\<close> meets it. A directory holds its entries in the order
  \<^verbatim>\<open>readDirNames\<close> returns them (sorted by name). \<open>Broken\<close> stands for an entry on which
  \<^verbatim>\<open>Lstat\<close>, reading the directory, \<^verbatim>\<open>os.Open\<close> or adding the file to the archive fails:
  each of them ends the walk with an error. The snapshot tree holds directories
  and regular files only; other kinds of entries are not modelled.
\<close>

datatype node =
    Directory "(string \<times> node) list"
  | RegularFile bytes
  | Broken

datatype zip_method = Store | Deflate

record zip_entry =
  entry_name :: string
  entry_method :: zip_method
  entry_data :: bytes

datatype zip_error = ErrCreateZip | ErrWalk string

text \<open>What the walk hands to the callback: a directory, a file that opens with these
  bytes, or an error (from the walk itself or from \<^verbatim>\<open>os.Open\<close>).\<close>

datatype visit = VisitDir | VisitFile bytes | VisitErr

text \<open>
  The function literal passed to \<^verbatim>\<open>filepath.Walk\<close>: an error ends the walk, a directory adds
  nothing, a file is added under the name
  \<^verbatim>\<open>strings.TrimPrefix(strings.TrimPrefix(path, sourceDir), string(filepath.Separator))\<close> with
  \<^verbatim>\<open>header.Method = zip.Deflate\<close>. The archive is the list of entries written so far.
\<close>

definition walkFn ::
    "string \<Rightarrow> string \<Rightarrow> visit \<Rightarrow> zip_entry list \<Rightarrow> zip_error option \<times> zip_entry list" where
  "walkFn sourceDir path v zipWriter =
     (case v of
        VisitErr \<Rightarrow> (Some (ErrWalk path), zipWriter)
      | VisitDir \<Rightarrow> (None, zipWriter)
      | VisitFile content \<Rightarrow>
          (let relPath = TrimPrefix path sourceDir;
               zipPath = TrimPrefix relPath [Separator];
               header = \<lparr>entry_name = zipPath, entry_method = Deflate, entry_data = content\<rparr>
           in (None, zipWriter @ [header])))"

text \<open>
  \<^verbatim>\<open>filepath.walk\<close>: a non-directory is handed to the callback; a directory is handed to it
  first and then its entries are walked, each under \<^verbatim>\<open>Join(path, name)\<close>, until one of them
  returns an error (the callback here never returns \<^verbatim>\<open>SkipDir\<close>).
\<close>

fun walk :: "string \<Rightarrow> string \<Rightarrow> node \<Rightarrow> zip_entry list \<Rightarrow> zip_error option \<times> zip_entry list"
  and walkNames ::
    "string \<Rightarrow> string \<Rightarrow> (string \<times> node) list \<Rightarrow> zip_entry list \<Rightarrow> zip_error option \<times> zip_entry list"
  where
  "walk sourceDir path (RegularFile content) zw = walkFn sourceDir path (VisitFile content) zw"
| "walk sourceDir path Broken zw = walkFn sourceDir path VisitErr zw"
| "walk sourceDir path (Directory names) zw =
     (case walkFn sourceDir path VisitDir zw of
        (Some e, zw') \<Rightarrow> (Some e, zw')
      | (None, zw') \<Rightarrow> walkNames sourceDir path names zw')"
| "walkNames sourceDir path [] zw = (None, zw)"
| "walkNames sourceDir path ((name, n) # names) zw =
     (case walk sourceDir (Join [path, name]) n zw of
        (Some e, zw') \<Rightarrow> (Some e, zw')
      | (None, zw') \<Rightarrow> walkNames sourceDir path names zw')"

text \<open>\<open>created\<close> tells whether \<^verbatim>\<open>os.Create(outputZip)\<close> worked. The result is the error, if
  any, and the entries of the archive file as the call leaves it.\<close>

definition ZipDirectory :: "bool \<Rightarrow> string \<Rightarrow> node \<Rightarrow> zip_error option \<times> zip_entry list" where
  "ZipDirectory created sourceDir tree =
     (if \<not> created then (Some ErrCreateZip, [])
      else walk sourceDir sourceDir tree [])"

subsection \<open>What the archive should hold\<close>

text \<open>The files of a tree in walk order, each with the names that lead to it from the
  root of the tree, and the tree's well-formedness: every name is a valid one and
  nothing is broken.\<close>

fun files :: "node \<Rightarrow> (string list \<times> bytes) list"
  and filesIn :: "(string \<times> node) list \<Rightarrow> (string list \<times> bytes) list" where
  "files (RegularFile content) = [([], content)]"
| "files Broken = []"
| "files (Directory names) = filesIn names"
| "filesIn [] = []"
| "filesIn ((name, n) # names) = map (\<lambda>(p, c). (name # p, c)) (files n) @ filesIn names"

fun readable :: "node \<Rightarrow> bool" and readableIn :: "(string \<times> node) list \<Rightarrow> bool" where
  "readable (RegularFile content) = True"
| "readable Broken = False"
| "readable (Directory names) = readableIn names"
| "readableIn [] = True"
| "readableIn ((name, n) # names) = (validName name \<and> readable n \<and> readableIn names)"

definition expected_entry :: "string list \<times> bytes \<Rightarrow> zip_entry" where
  "expected_entry pc = \<lparr>entry_name = joinSep (fst pc), entry_method = Deflate, entry_data = snd pc\<rparr>"

text \<open>The tree of the spec's example: files \<^verbatim>\<open>a/b.yaml\<close> and \<^verbatim>\<open>c.yaml\<close>.\<close>

definition ex_tree :: node where
  "ex_tree = Directory [(''a'', Directory [(''b.yaml'', RegularFile ''kind: A'')]),
                        (''c.yaml'', RegularFile ''kind: C'')]"

subsection \<open>Paths below a directory, used in the proofs\<close>

definition pathOf :: "string \<Rightarrow> string list \<Rightarrow> string" where
  "pathOf path names = path @ concat (map ((#) Separator) names)"

definition zipName :: "string \<Rightarrow> string \<Rightarrow> string" where
  "zipName sourceDir path = TrimPrefix (TrimPrefix path sourceDir) [Separator]"

definition entryAt :: "string \<Rightarrow> string \<Rightarrow> string list \<times> bytes \<Rightarrow> zip_entry" where
  "entryAt sourceDir path pc =
     \<lparr>entry_name = zipName sourceDir (pathOf path (fst pc)), entry_method = Deflate, entry_data = snd pc\<rparr>"

section \<open>The uploader (main.go, UploadUsingPAR)\<close>

datatype upload_error =
    ErrParseURL
  | ErrNotExist
  | ErrOpen
  | ErrFileStat
  | ErrRead
  | ErrNewRequest
  | ErrSend
  | ErrStatus nat

record request =
  req_method :: string
  req_url :: string
  req_body :: bytes
  req_content_type :: string

text \<open>
  What the uploader asks of the operating system and of the network, as far as its result
  depends on it:
  \<^item> \<open>url_Parse\<close>: \<^verbatim>\<open>url.Parse\<close>; \<open>None\<close> is the error, \<open>Some s\<close> gives \<^verbatim>\<open>escapedURL.String()\<close>;
  \<^item> \<open>stat_IsNotExist\<close>: \<^verbatim>\<open>os.IsNotExist(err)\<close> for the error of \<^verbatim>\<open>os.Stat(filePath)\<close>;
  \<^item> \<open>os_Open\<close>: \<open>None\<close> when \<^verbatim>\<open>os.Open\<close> fails, else the bytes of the file;
  \<^item> \<open>file_Stat_fails\<close>, \<open>file_Read_fails\<close>: the errors of \<^verbatim>\<open>file.Stat()\<close> and of the read
    system call; the size reported by \<^verbatim>\<open>Stat\<close> is the length of the file;
  \<^item> \<open>http_NewRequest_ok\<close>: \<^verbatim>\<open>http.NewRequest\<close> accepts the URL string;
  \<^item> \<open>client_Do\<close>: \<open>None\<close> is a transport error, \<open>Some code\<close> the status code of the response.
\<close>

record upload_world =
  url_Parse :: "string \<Rightarrow> string option"
  stat_IsNotExist :: "string \<Rightarrow> bool"
  os_Open :: "string \<Rightarrow> bytes option"
  file_Stat_fails :: "string \<Rightarrow> bool"
  file_Read_fails :: "string \<Rightarrow> bool"
  http_NewRequest_ok :: "string \<Rightarrow> bool"
  client_Do :: "request \<Rightarrow> nat option"

text \<open>
  One call of \<^verbatim>\<open>(*os.File).Read\<close> on a file positioned at its start. Go, internal/poll:
  \<^verbatim>\<open>
  const maxRW = 1 << 30
  func (fd *FD) Read(p []byte) (int, error) {
      ...
      if len(p) == 0 { return 0, nil }
      ...
      if fd.IsStream && len(p) > maxRW { p = p[:maxRW] }
      for { n, err := ignoringEINTRIO(syscall.Read, fd.Sysfd, p) ... return n, err }
  }
  \<close>
  (\<^verbatim>\<open>os.newFile\<close> sets \<^verbatim>\<open>IsStream: true\<close>), and \<^verbatim>\<open>(*File).Read\<close> turns a read of 0 bytes
  into a non-empty buffer into \<^verbatim>\<open>io.EOF\<close>. The read fills the first \<open>n\<close> bytes of the buffer
  and leaves the rest as \<^verbatim>\<open>make\<close> set it, zero. The result is the buffer after the call; the
  byte count is dropped by the caller (\<^verbatim>\<open>_, err = file.Read(buffer)\<close>).
\<close>

definition maxRW :: nat where
  "maxRW = 2 ^ 30"

definition file_Read :: "bool \<Rightarrow> bytes \<Rightarrow> nat \<Rightarrow> bytes option" where
  "file_Read fails content len =
     (if len = 0 then Some []
      else if fails then None
      else let n = min (min len maxRW) (length content)
           in if n = 0 then None
              else Some (take n content @ replicate (len - n) (CHR 0x00)))"

definition UploadUsingPAR ::
    "upload_world \<Rightarrow> string \<Rightarrow> string \<Rightarrow> (upload_error + unit) \<times> request list" where
  "UploadUsingPAR w filePath parURL =
     (case url_Parse w parURL of
        None \<Rightarrow> (Inl ErrParseURL, [])
      | Some escapedURL \<Rightarrow>
          if stat_IsNotExist w filePath then (Inl ErrNotExist, [])
          else (case os_Open w filePath of
            None \<Rightarrow> (Inl ErrOpen, [])
          | Some content \<Rightarrow>
              if file_Stat_fails w filePath then (Inl ErrFileStat, [])
              else let fileSize = length content in
                (case file_Read (file_Read_fails w filePath) content fileSize of
                   None \<Rightarrow> (Inl ErrRead, [])
                 | Some buffer \<Rightarrow>
                     if \<not> http_NewRequest_ok w escapedURL then (Inl ErrNewRequest, [])
                     else let req = \<lparr>req_method = ''PUT'', req_url = escapedURL, req_body = buffer,
                                      req_content_type = ''application/zip''\<rparr>
                          in (case client_Do w req of
                                None \<Rightarrow> (Inl ErrSend, [req])
                              | Some code \<Rightarrow>
                                  if code \<noteq> 200 \<and> code \<noteq> 201 then (Inl (ErrStatus code), [req])
                                  else (Inr (), [req])))))"

text \<open>A world in which everything works and the endpoint answers with the given status.\<close>

definition answering :: "bytes \<Rightarrow> nat \<Rightarrow> upload_world" where
  "answering content code =
     \<lparr>url_Parse = Some, stat_IsNotExist = (\<lambda>p. False), os_Open = (\<lambda>p. Some content),
      file_Stat_fails = (\<lambda>p. False), file_Read_fails = (\<lambda>p. False),
      http_NewRequest_ok = (\<lambda>u. True), client_Do = (\<lambda>r. Some code)\<rparr>"

text \<open>A file of 1 GiB and one byte, every byte of it 1.\<close>

definition big_file :: bytes where
  "big_file = replicate (2 ^ 30 + 1) (CHR 0x01)"

section \<open>Properties of the sanitizer\<close>

subsection \<open>The closed form\<close>

lemma Remove_meta: "RemoveNestedField r [''metadata'', k] = Some (onMeta (fmdrop k) r)"
  by (simp add: onMeta_def split: option.splits val.splits)

lemma Remove_top: "RemoveNestedField r [k] = Some (fmdrop k r)"
  by simp

lemma deleteKeys_None: "deleteKeys None keys = None"
  by (induction keys) auto

lemma deleteKeys_Some: "deleteKeys (Some a) keys = Some (fmfilter (\<lambda>k. k \<notin> set keys) a)"
proof (induction keys arbitrary: a)
  case Nil show ?case by simp
next
  case (Cons k ks)
  have "fmfilter (\<lambda>x. x \<notin> set ks) (fmdrop k a) = fmfilter (\<lambda>x. x \<notin> set (k # ks)) a"
    by (rule fmap_ext) auto
  with Cons show ?case by simp
qed

lemma str_roundtrip:
  assumes "fmpred (\<lambda>k v. is_VStr v) a"
  shows "fmmap VStr (fmfilter P (fmmap str_of a)) = fmfilter P a"
proof (rule fmap_ext)
  fix x
  show "fmlookup (fmmap VStr (fmfilter P (fmmap str_of a))) x = fmlookup (fmfilter P a) x"
  proof (cases "fmlookup a x")
    case None then show ?thesis by simp
  next
    case (Some v)
    with assms have "is_VStr v" by (auto dest: fmpredD)
    with Some show ?thesis by (cases v) auto
  qed
qed

lemma str_roundtrip2:
  assumes "fmpred (\<lambda>k v. is_VStr v) a"
  shows "fmmap VStr (fmmap str_of (fmfilter P a)) = fmfilter P a"
proof (rule fmap_ext)
  fix x
  show "fmlookup (fmmap VStr (fmmap str_of (fmfilter P a))) x = fmlookup (fmfilter P a) x"
  proof (cases "fmlookup a x")
    case None then show ?thesis by simp
  next
    case (Some v)
    with assms have "is_VStr v" by (auto dest: fmpredD)
    with Some show ?thesis by (cases v) auto
  qed
qed

lemma GetStr: "NestedStringMap r [''metadata'', f] =
  (case fmlookup r ''metadata'' of
     Some (VMap m) \<Rightarrow> (case fmlookup m f of None \<Rightarrow> NotFound
        | Some (VMap a) \<Rightarrow> if fmpred (\<lambda>k v. is_VStr v) a then Found (fmmap str_of a) else AccessErr
        | Some _ \<Rightarrow> AccessErr)
   | Some VNull \<Rightarrow> NotFound
   | Some _ \<Rightarrow> AccessErr
   | None \<Rightarrow> NotFound)"
  by (simp add: NestedStringMap_def nestedMapNoCopy_def NestedFieldNoCopy_def split: option.splits val.splits)

lemma removeAnnotations_eq:
  "removeAnnotations r keys = Some (onMeta (\<lambda>m. setOrDrop ''annotations'' (stripKeys keys (fmlookup m ''annotations'')) m) r)"
  by (auto simp: removeAnnotations_def GetAnnotations_def SetAnnotations_def GetStr onMeta_def setOrDrop_def
      stripKeys_def deleteKeys_None deleteKeys_Some setNestedMap_def SetNestedStringMap_def str_roundtrip str_roundtrip2 Let_def
      split: option.splits val.splits)

lemma removeLabels_eq:
  "removeLabels r keys = Some (onMeta (\<lambda>m. setOrDrop ''labels'' (stripKeys keys (fmlookup m ''labels'')) m) r)"
  by (auto simp: removeLabels_def GetLabels_def SetLabels_def GetStr onMeta_def setOrDrop_def
      stripKeys_def deleteKeys_None deleteKeys_Some setNestedMap_def SetNestedStringMap_def str_roundtrip str_roundtrip2 Let_def
      split: option.splits val.splits)

lemma Split_ann: "Split ''metadata.annotations'' (CHR ''.'') = [''metadata'', ''annotations'']"
  by simp

lemma Split_lab: "Split ''metadata.labels'' (CHR ''.'') = [''metadata'', ''labels'']"
  by simp

lemma onMeta_onMeta: "onMeta f (onMeta g r) = onMeta (\<lambda>m. f (g m)) r"
  by (auto simp: onMeta_def split: option.splits val.splits)

lemma fmupd_same: "fmlookup m k = Some v \<Longrightarrow> fmupd k v m = m"
  by (rule fmap_ext) auto

lemma emptyStep:
  "(case NestedFieldNoCopy r [''metadata'', k] of
        Found (VMap objMap) \<Rightarrow>
          (if objMap = fmempty
           then do { r' \<leftarrow> RemoveNestedField r [''metadata'', k]; F r' }
           else F r)
      | _ \<Rightarrow> F r) = F (onMeta (dropIfEmpty k) r)"
  by (auto simp: NestedFieldNoCopy_def onMeta_def dropIfEmpty_def fmupd_same split: option.splits val.splits)

lemma removeEmpty_one:
  "removeEmptyFields r [''metadata.annotations'', ''metadata.labels'']
    = Some (onMeta (\<lambda>m. dropIfEmpty ''labels'' (dropIfEmpty ''annotations'' m)) r)"
  apply (simp only: removeEmptyFields.simps Split_ann Split_lab)
  apply (auto simp: NestedFieldNoCopy_def onMeta_def dropIfEmpty_def fmupd_same split: option.splits val.splits)
  done

lemma onMeta_drop: "k \<noteq> ''metadata'' \<Longrightarrow> onMeta f (fmdrop k r) = fmdrop k (onMeta f r)"
  by (auto simp: onMeta_def fmdrop_fmupd split: option.splits val.splits)

lemma cleanResource_eq: "cleanResource r = Some (fmdrop ''status'' (onMeta cleanMeta r))"
  unfolding cleanResource_def cleanMeta_def[abs_def] Let_def
  by (simp add: Remove_meta Remove_top removeAnnotations_eq removeLabels_eq removeEmpty_one onMeta_onMeta onMeta_drop
        del: RemoveNestedField.simps removeEmptyFields.simps)

lemma setOrDrop_lookup: "fmlookup (setOrDrop k v m) k' = (if k' = k then v else fmlookup m k')"
  by (simp add: setOrDrop_def split: option.splits)

lemma dropIfEmpty_lookup: "fmlookup (dropIfEmpty k m) k' =
   (if k' = k \<and> fmlookup m k = Some (VMap fmempty) then None else fmlookup m k')"
  by (auto simp: dropIfEmpty_def split: option.splits val.splits)

lemma stripKeys_empty: "(stripKeys keys v = Some (VMap fmempty)) =
   (\<exists>a. v = Some (VMap a) \<and> fmpred (\<lambda>k v. is_VStr v) a \<and> fmfilter (\<lambda>k. k \<notin> set keys) a = fmempty)"
  by (auto simp: stripKeys_def split: option.splits val.splits)

lemma finalStr_strip: "finalStr keys v = (if stripKeys keys v = Some (VMap fmempty) then None else stripKeys keys v)"
  by (auto simp: stripKeys_def finalStr_def split: option.splits val.splits)

lemma cleanMeta_lookup:
  "fmlookup (cleanMeta m) k =
     (if k \<in> set removedMetaKeys
      then None
      else if k = ''annotations'' then finalStr blockedAnnotations (fmlookup m ''annotations'')
      else if k = ''labels'' then finalStr blockedLabels (fmlookup m ''labels'')
      else fmlookup m k)"
  by (simp add: cleanMeta_def Let_def setOrDrop_lookup dropIfEmpty_lookup finalStr_strip removedMetaKeys_def)

lemma ann_not_removed: "''annotations'' \<notin> set removedMetaKeys"
  by (simp add: removedMetaKeys_def)

lemma lab_not_removed: "''labels'' \<notin> set removedMetaKeys"
  by (simp add: removedMetaKeys_def)

lemmas cleanMeta_simps = cleanMeta_lookup ann_not_removed lab_not_removed

subsection \<open>No blocked field survives\<close>

lemma nested_clean:
  "nestedFrom (VMap (fmdrop ''status'' (onMeta f r))) (k # rest) =
    (if k = ''status'' then NotFound
     else if k = ''metadata'' then
       (case fmlookup r ''metadata'' of
          Some (VMap m) \<Rightarrow> nestedFrom (VMap (f m)) rest
        | Some v \<Rightarrow> nestedFrom v rest
        | None \<Rightarrow> NotFound)
     else nestedFrom (VMap r) (k # rest))"
  by (simp add: onMeta_def split: option.splits val.splits)

lemma nested_not_map: "\<not> is_VMap v \<Longrightarrow> nestedFrom v (k # rest) \<noteq> Found x"
  by (cases v) auto

lemma hasField_clean_meta:
  "hasField (fmdrop ''status'' (onMeta cleanMeta r)) (''metadata'' # k # rest) =
     (case fmlookup r ''metadata'' of
        Some (VMap m) \<Rightarrow> (case fmlookup (cleanMeta m) k of
             Some v \<Rightarrow> (case nestedFrom v rest of Found _ \<Rightarrow> True | _ \<Rightarrow> False)
           | None \<Rightarrow> False)
      | _ \<Rightarrow> False)"
  unfolding hasField_def NestedFieldNoCopy_def nested_clean
  by (simp split: option.splits val.splits)

lemma finalStr_blockedA: "k \<in> set keys \<Longrightarrow> finalStr keys v = Some (VMap a) \<Longrightarrow> fmlookup a k = None"
  by (auto simp: finalStr_def split: option.splits val.splits if_splits)

lemma finalStr_is_map: "finalStr keys v = Some x \<Longrightarrow> \<exists>a. x = VMap a"
  by (auto simp: finalStr_def split: option.splits val.splits if_splits)

lemma hasField_clean_key:
  assumes "k \<in> set keys" and "finalStr keys v = Some x"
  shows "nestedFrom x [k] = NotFound"
proof -
  obtain a where a: "x = VMap a" using assms(2) finalStr_is_map by blast
  with assms have "fmlookup a k = None" using finalStr_blockedA by blast
  with a show ?thesis by simp
qed

lemma hasField_ann:
  "k \<in> set blockedAnnotations \<Longrightarrow> \<not> hasField (fmdrop ''status'' (onMeta cleanMeta r)) [''metadata'', ''annotations'', k]"
  by (auto simp: hasField_clean_meta cleanMeta_simps hasField_clean_key split: option.splits val.splits)

lemma hasField_lab:
  "k \<in> set blockedLabels \<Longrightarrow> \<not> hasField (fmdrop ''status'' (onMeta cleanMeta r)) [''metadata'', ''labels'', k]"
  by (auto simp: hasField_clean_meta cleanMeta_simps hasField_clean_key split: option.splits val.splits)

lemma hasField_removed:
  "k \<in> set removedMetaKeys
   \<Longrightarrow> \<not> hasField (fmdrop ''status'' (onMeta cleanMeta r)) (''metadata'' # k # rest)"
  by (simp add: hasField_clean_meta cleanMeta_simps split: option.splits val.splits)

lemma hasField_status: "\<not> hasField (fmdrop ''status'' r) (''status'' # rest)"
  by (simp add: hasField_def NestedFieldNoCopy_def)

text \<open>
  Claim C1. Whatever the object, \<^verbatim>\<open>cleanResource\<close> returns, and the sanitized object holds none
  of \<^verbatim>\<open>metadata.resourceVersion\<close>, \<^verbatim>\<open>metadata.uid\<close>, \<^verbatim>\<open>metadata.selfLink\<close>,
  \<^verbatim>\<open>metadata.creationTimestamp\<close>, \<^verbatim>\<open>metadata.generation\<close>, \<^verbatim>\<open>metadata.managedFields\<close>, nothing
  at or below \<^verbatim>\<open>status\<close>, none of the four blocked annotation keys and not the blocked
  label key.
\<close>

theorem sanitized_has_no_blocked_field: "\<exists>r'. cleanResource r = Some r' \<and>
    \<not> hasField r' [''metadata'', ''resourceVersion''] \<and>
    \<not> hasField r' [''metadata'', ''uid''] \<and>
    \<not> hasField r' [''metadata'', ''selfLink''] \<and>
    \<not> hasField r' [''metadata'', ''creationTimestamp''] \<and>
    \<not> hasField r' [''metadata'', ''generation''] \<and>
    \<not> hasField r' [''metadata'', ''managedFields''] \<and>
    (\<forall>rest. \<not> hasField r' (''status'' # rest)) \<and>
    \<not> hasField r' [''metadata'', ''annotations'', ''objectset.rio.cattle.io/applied''] \<and>
    \<not> hasField r' [''metadata'', ''annotations'', ''objectset.rio.cattle.io/id''] \<and>
    \<not> hasField r' [''metadata'', ''annotations'', ''objectset.rio.cattle.io/hash''] \<and>
    \<not> hasField r' [''metadata'', ''annotations'', ''cattle.io.timestamp''] \<and>
    \<not> hasField r' [''metadata'', ''labels'', ''objectset.rio.cattle.io/hash'']"
proof -
  let ?r = "fmdrop ''status'' (onMeta cleanMeta r)"
  have a: "\<And>k. k \<in> set blockedAnnotations \<Longrightarrow> \<not> hasField ?r [''metadata'', ''annotations'', k]"
    by (rule hasField_ann)
  have l: "\<And>k. k \<in> set blockedLabels \<Longrightarrow> \<not> hasField ?r [''metadata'', ''labels'', k]"
    by (rule hasField_lab)
  have m: "\<And>k. k \<in> set removedMetaKeys
     \<Longrightarrow> \<not> hasField ?r [''metadata'', k]"
    by (rule hasField_removed)
  show ?thesis
    unfolding cleanResource_eq
    apply (rule exI[of _ ?r])
    apply (intro conjI allI refl)
              apply (rule m, simp add: removedMetaKeys_def)+
         apply (rule hasField_status)
        apply (rule a, simp add: blockedAnnotations_def)+
    apply (rule l, simp add: blockedLabels_def)
    done
qed

text \<open>The sanitizer on a Deployment that carries a uid and a status: both are gone afterwards.\<close>

theorem sanitized_has_no_blocked_field_witness:
  "cleanResource ex_deployment = Some ex_deployment_clean \<and>
   hasField ex_deployment [''metadata'', ''uid''] \<and> \<not> hasField ex_deployment_clean [''metadata'', ''uid''] \<and>
   hasField ex_deployment [''status'', ''readyReplicas''] \<and>
   \<not> hasField ex_deployment_clean [''status'', ''readyReplicas'']"
proof -
  have e: "cleanResource ex_deployment = Some ex_deployment_clean" by code_simp
  have b: "hasField ex_deployment [''metadata'', ''uid''] \<and> hasField ex_deployment [''status'', ''readyReplicas'']"
    by code_simp
  from sanitized_has_no_blocked_field[of ex_deployment] e b show ?thesis by auto
qed

subsection \<open>Idempotence\<close>

lemma finalStr_idem: "finalStr keys (finalStr keys v) = finalStr keys v"
proof -
  have "fmfilter (\<lambda>k. k \<notin> set keys) (fmfilter (\<lambda>k. k \<notin> set keys) a) = fmfilter (\<lambda>k. k \<notin> set keys) a" for a :: obj
    by (rule fmap_ext) auto
  moreover have "fmpred (\<lambda>k v. is_VStr v) a \<Longrightarrow> fmpred (\<lambda>k v. is_VStr v) (fmfilter P a)" for a :: obj and P
    by (simp add: fmpred_filter)
  ultimately show ?thesis
    by (auto simp: finalStr_def split: option.splits val.splits)
qed

lemma cleanMeta_idem: "cleanMeta (cleanMeta m) = cleanMeta m"
  by (rule fmap_ext) (simp add: cleanMeta_simps finalStr_idem)

lemma fmdrop_fmdrop_same: "fmdrop k (fmdrop k m) = fmdrop k m"
  by (rule fmap_ext) simp

text \<open>
  Claim C5. Sanitizing is idempotent: \<^verbatim>\<open>cleanResource\<close> returns some object, and on that
  object it returns the very same object.
\<close>

theorem sanitize_idempotent: "\<exists>r'. cleanResource r = Some r' \<and> cleanResource r' = Some r'"
  by (simp add: cleanResource_eq onMeta_drop onMeta_onMeta cleanMeta_idem fmdrop_fmdrop_same)

text \<open>On the Deployment the first pass changes the object and the second changes nothing.\<close>

theorem sanitize_idempotent_witness:
  "cleanResource ex_deployment = Some ex_deployment_clean \<and>
   cleanResource ex_deployment_clean = Some ex_deployment_clean \<and> ex_deployment_clean \<noteq> ex_deployment"
proof -
  have e: "cleanResource ex_deployment = Some ex_deployment_clean" by code_simp
  have n: "ex_deployment_clean \<noteq> ex_deployment" by code_simp
  from sanitize_idempotent[of ex_deployment] e n show ?thesis by auto
qed

subsection \<open>Mappings that hold blocked keys only\<close>

lemma finalStr_only_blocked:
  assumes "fmpred (\<lambda>k v. k \<in> set keys) a"
  shows "finalStr keys (Some (VMap a)) = None"
proof -
  have "fmfilter (\<lambda>k. k \<notin> set keys) a = fmempty"
  proof (rule fmap_ext)
    fix x show "fmlookup (fmfilter (\<lambda>k. k \<notin> set keys) a) x = fmlookup fmempty x"
    proof (cases "fmlookup a x")
      case None then show ?thesis by simp
    next
      case (Some y)
      with assms have "x \<in> set keys" by (rule fmpredD)
      then show ?thesis by simp
    qed
  qed
  then show ?thesis by (simp add: finalStr_def)
qed

lemma nestedFrom_Cons_Found:
  "nestedFrom v (f # fs) = Found x \<longleftrightarrow>
     (\<exists>m v'. v = VMap m \<and> fmlookup m f = Some v' \<and> nestedFrom v' fs = Found x)"
  by (cases v) (auto split: option.splits)

lemma nested_meta_field:
  "NestedFieldNoCopy r [''metadata'', f] = Found v \<longleftrightarrow>
     (\<exists>m. fmlookup r ''metadata'' = Some (VMap m) \<and> fmlookup m f = Some v)"
  by (auto simp: NestedFieldNoCopy_def nestedFrom_Cons_Found simp del: nestedFrom.simps(2-))

text \<open>
  Claim C7. When \<^verbatim>\<open>metadata.annotations\<close> is a mapping all of whose keys are blocked
  annotation keys, the sanitized object has no \<^verbatim>\<open>metadata.annotations\<close> field at all; and
  likewise \<^verbatim>\<open>metadata.labels\<close> with the blocked label key.
\<close>

theorem only_blocked_keys_field_removed:
  "(NestedFieldNoCopy r [''metadata'', ''annotations''] = Found (VMap a) \<and> fmpred (\<lambda>k v. k \<in> set blockedAnnotations) a
      \<longrightarrow> (\<exists>r'. cleanResource r = Some r' \<and> \<not> hasField r' [''metadata'', ''annotations''])) \<and>
   (NestedFieldNoCopy r [''metadata'', ''labels''] = Found (VMap l) \<and> fmpred (\<lambda>k v. k \<in> set blockedLabels) l
      \<longrightarrow> (\<exists>r'. cleanResource r = Some r' \<and> \<not> hasField r' [''metadata'', ''labels'']))"
  by (auto simp: cleanResource_eq nested_meta_field hasField_clean_meta cleanMeta_simps finalStr_only_blocked)

text \<open>A ConfigMap whose annotations and labels hold blocked keys only loses both fields.\<close>

theorem only_blocked_keys_field_removed_witness:
  "NestedFieldNoCopy ex_only_blocked [''metadata'', ''annotations''] =
     Found (VMap (fmap_of_list
       [(''objectset.rio.cattle.io/id'', VStr ''x''), (''cattle.io.timestamp'', VStr ''t'')])) \<and>
   fmpred (\<lambda>k v. k \<in> set blockedAnnotations) (fmap_of_list
       [(''objectset.rio.cattle.io/id'', VStr ''x''), (''cattle.io.timestamp'', VStr ''t'')]) \<and>
   NestedFieldNoCopy ex_only_blocked [''metadata'', ''labels''] =
     Found (VMap (fmap_of_list [(''objectset.rio.cattle.io/hash'', VStr ''h1'')])) \<and>
   fmpred (\<lambda>k v. k \<in> set blockedLabels) (fmap_of_list [(''objectset.rio.cattle.io/hash'', VStr ''h1'')]) \<and>
   (\<exists>r'. cleanResource ex_only_blocked = Some r' \<and>
         \<not> hasField r' [''metadata'', ''annotations''] \<and> \<not> hasField r' [''metadata'', ''labels''])"
proof -
  let ?a = "fmap_of_list
       [(''objectset.rio.cattle.io/id'', VStr ''x''), (''cattle.io.timestamp'', VStr ''t'')]"
  let ?l = "fmap_of_list [(''objectset.rio.cattle.io/hash'', VStr ''h1'')]"
  have a1: "NestedFieldNoCopy ex_only_blocked [''metadata'', ''annotations''] = Found (VMap ?a)" by code_simp
  have a2: "fmpred (\<lambda>k v. k \<in> set blockedAnnotations) ?a" by code_simp
  have l1: "NestedFieldNoCopy ex_only_blocked [''metadata'', ''labels''] = Found (VMap ?l)" by code_simp
  have l2: "fmpred (\<lambda>k v. k \<in> set blockedLabels) ?l" by code_simp
  from only_blocked_keys_field_removed[of ex_only_blocked ?a ?l] a1 a2 l1 l2
  show ?thesis by auto
qed

subsection \<open>Objects with nothing to remove\<close>

text \<open>
  Claim C6 as stated fails: an object whose \<^verbatim>\<open>metadata.annotations\<close> is the empty mapping has
  none of the blocked fields and none of the blocked keys, yet the sanitizer removes the
  field (\<^verbatim>\<open>removeEmptyFields\<close>), so the result differs from the input.
\<close>

theorem sanitize_noop_counterexample: "hasNoBlocked ex_empty_ann \<and> cleanResource ex_empty_ann = Some (fmap_of_list [(''metadata'', VMap fmempty)])
   \<and> cleanResource ex_empty_ann \<noteq> Some ex_empty_ann"
  by code_simp

lemma hasField_top: "hasField r [k] = (fmlookup r k \<noteq> None)"
  by (simp add: hasField_def NestedFieldNoCopy_def split: option.splits)

lemma hasField_meta2: "fmlookup r ''metadata'' = Some (VMap m) \<Longrightarrow> hasField r [''metadata'', k] = (fmlookup m k \<noteq> None)"
  by (simp add: hasField_def NestedFieldNoCopy_def split: option.splits)

lemma hasField_meta3: "fmlookup r ''metadata'' = Some (VMap m) \<Longrightarrow> fmlookup m f = Some (VMap a) \<Longrightarrow>
   hasField r [''metadata'', f, k] = (fmlookup a k \<noteq> None)"
  by (simp add: hasField_def NestedFieldNoCopy_def split: option.splits)

lemma fmdrop_absent: "fmlookup m k = None \<Longrightarrow> fmdrop k m = m"
  by (rule fmap_ext) auto

lemma finalStr_keep:
  assumes "fmpred (\<lambda>k v. is_VStr v) a" "a \<noteq> fmempty" "\<And>k. k \<in> set keys \<Longrightarrow> fmlookup a k = None"
  shows "finalStr keys (Some (VMap a)) = Some (VMap a)"
proof -
  have "fmfilter (\<lambda>k. k \<notin> set keys) a = a"
    by (rule fmap_ext) (use assms(3) in auto)
  with assms show ?thesis by (simp add: finalStr_def)
qed

lemma hasNoBlocked_iff:
  "hasNoBlocked r \<longleftrightarrow>
     \<not> hasField r [''status''] \<and>
     (\<forall>k \<in> set removedMetaKeys.
         \<not> hasField r [''metadata'', k]) \<and>
     (\<forall>k \<in> set blockedAnnotations. \<not> hasField r [''metadata'', ''annotations'', k]) \<and>
     (\<forall>k \<in> set blockedLabels. \<not> hasField r [''metadata'', ''labels'', k])"
  unfolding hasNoBlocked_def blockedPaths_def blockedFieldPaths_def blockedKeyPaths_def
  by (simp add: blockedAnnotations_def blockedLabels_def removedMetaKeys_def) blast

lemma stringMapField_meta:
  "fmlookup r ''metadata'' = Some (VMap m) \<Longrightarrow>
   stringMapField r f = (case fmlookup m f of None \<Rightarrow> True | Some (VMap a) \<Rightarrow> fmpred (\<lambda>k v. is_VStr v) a | Some _ \<Rightarrow> False)"
  by (simp add: stringMapField_def NestedFieldNoCopy_def split: option.splits val.splits)

lemma emptyMapField_meta:
  "fmlookup r ''metadata'' = Some (VMap m) \<Longrightarrow> emptyMapField r f = (fmlookup m f = Some (VMap fmempty))"
  by (simp add: emptyMapField_def NestedFieldNoCopy_def split: option.splits val.splits)

lemma finalStr_same:
  assumes m: "fmlookup r ''metadata'' = Some (VMap m)"
    and s: "stringMapField r f" and e: "\<not> emptyMapField r f"
    and b: "\<And>k. k \<in> set keys \<Longrightarrow> \<not> hasField r [''metadata'', f, k]"
  shows "finalStr keys (fmlookup m f) = fmlookup m f"
proof (cases "fmlookup m f")
  case None then show ?thesis by (simp add: finalStr_def)
next
  case (Some v)
  with s m obtain a where a: "v = VMap a" "fmpred (\<lambda>k v. is_VStr v) a"
    by (cases v) (simp_all add: stringMapField_meta)
  from e m Some a have ne: "a \<noteq> fmempty" by (simp add: emptyMapField_meta)
  have "fmlookup a k = None" if "k \<in> set keys" for k
    using b[OF that] hasField_meta3[OF m, of f a k] Some a by simp
  with a ne Some show ?thesis by (simp add: finalStr_keep)
qed

text \<open>
  Claim C6, amended. On an object with none of the blocked fields and none of the blocked
  keys, whose \<^verbatim>\<open>metadata.annotations\<close> and \<^verbatim>\<open>metadata.labels\<close> are each absent or a
  non-empty mapping of strings, \<^verbatim>\<open>cleanResource\<close> returns (it never fails) and the result is
  equal to the input.
\<close>

theorem sanitize_noop:
  assumes nb: "hasNoBlocked r"
    and sa: "stringMapField r ''annotations''" and sl: "stringMapField r ''labels''"
    and ea: "\<not> emptyMapField r ''annotations''" and el: "\<not> emptyMapField r ''labels''"
  shows "cleanResource r = Some r"
proof -
  from nb have st: "fmlookup r ''status'' = None"
    by (simp add: hasNoBlocked_iff hasField_top)
  have "onMeta cleanMeta r = r"
  proof (cases "\<exists>m. fmlookup r ''metadata'' = Some (VMap m)")
    case False
    then show ?thesis by (auto simp: onMeta_def split: option.splits val.splits)
  next
    case True
    then obtain m where m: "fmlookup r ''metadata'' = Some (VMap m)" by blast
    have six: "fmlookup m k = None"
      if "k \<in> set removedMetaKeys" for k
    proof -
      from nb[unfolded hasNoBlocked_iff]
      have A: "\<forall>k \<in> set removedMetaKeys.
         \<not> hasField r [''metadata'', k]"
        by (rule conjunct1[OF conjunct2])
      from bspec[OF A that] show ?thesis
        by (simp only: hasField_meta2[OF m] not_not)
    qed
    have fa: "finalStr blockedAnnotations (fmlookup m ''annotations'') = fmlookup m ''annotations''"
      using nb by (intro finalStr_same[OF m sa ea]) (simp add: hasNoBlocked_iff)
    have fl: "finalStr blockedLabels (fmlookup m ''labels'') = fmlookup m ''labels''"
      using nb by (intro finalStr_same[OF m sl el]) (simp add: hasNoBlocked_iff)
    have "cleanMeta m = m"
    proof (rule fmap_ext)
      fix k show "fmlookup (cleanMeta m) k = fmlookup m k"
        using six[of k] fa fl by (simp add: cleanMeta_simps del: insert_iff)
    qed
    with m show ?thesis by (simp add: onMeta_def fmupd_same)
  qed
  with st show ?thesis by (simp add: cleanResource_eq fmdrop_absent)
qed

text \<open>The sanitized Deployment is such an object (labels present, annotations absent).\<close>

theorem sanitize_noop_witness:
  "hasNoBlocked ex_deployment_clean \<and>
   stringMapField ex_deployment_clean ''annotations'' \<and> stringMapField ex_deployment_clean ''labels'' \<and>
   \<not> emptyMapField ex_deployment_clean ''annotations'' \<and> \<not> emptyMapField ex_deployment_clean ''labels'' \<and>
   cleanResource ex_deployment_clean = Some ex_deployment_clean"
proof -
  have h1: "hasNoBlocked ex_deployment_clean" by code_simp
  have h2: "stringMapField ex_deployment_clean ''annotations''" by code_simp
  have h3: "stringMapField ex_deployment_clean ''labels''" by code_simp
  have h4: "\<not> emptyMapField ex_deployment_clean ''annotations''" by code_simp
  have h5: "\<not> emptyMapField ex_deployment_clean ''labels''" by code_simp
  from sanitize_noop[OF h1 h2 h3 h4 h5] h1 h2 h3 h4 h5 show ?thesis by blast
qed

subsection \<open>The frame of the sanitizer\<close>

lemma related_Nil: "related []"
  by (simp add: related_def blockedPaths_def blockedFieldPaths_def)

lemma related_status: "related (''status'' # rest)"
  by (simp add: related_def blockedPaths_def blockedFieldPaths_def)

lemma related_meta: "related [''metadata'']"
  by (simp add: related_def blockedPaths_def blockedFieldPaths_def)

lemma related_six:
  "k \<in> set removedMetaKeys
   \<Longrightarrow> related (''metadata'' # k # rest)"
  by (auto simp: related_def blockedPaths_def blockedFieldPaths_def removedMetaKeys_def)

lemma related_ann: "related [''metadata'', ''annotations'']"
  by (simp add: related_def blockedPaths_def blockedFieldPaths_def blockedKeyPaths_def blockedAnnotations_def)

lemma related_lab: "related [''metadata'', ''labels'']"
  by (simp add: related_def blockedPaths_def blockedFieldPaths_def blockedKeyPaths_def blockedLabels_def)

lemma related_ann_key: "k \<in> set blockedAnnotations \<Longrightarrow> related (''metadata'' # ''annotations'' # k # rest)"
  unfolding related_def list_ex_iff blockedPaths_def blockedKeyPaths_def
  by (rule bexI[of _ "[''metadata'', ''annotations'', k]"]) simp_all

lemma related_lab_key: "k \<in> set blockedLabels \<Longrightarrow> related (''metadata'' # ''labels'' # k # rest)"
  unfolding related_def list_ex_iff blockedPaths_def blockedKeyPaths_def
  by (rule bexI[of _ "[''metadata'', ''labels'', k]"]) simp_all

lemma finalStr_Some:
  "finalStr keys v = Some w \<Longrightarrow> \<exists>a. v = Some (VMap a) \<and> w = VMap (fmfilter (\<lambda>k. k \<notin> set keys) a)"
  by (auto simp: finalStr_def split: option.splits val.splits if_splits)

lemma nested_filter:
  "nestedFrom (VMap (fmfilter P a)) rest = Found x \<Longrightarrow> \<exists>y. nestedFrom (VMap a) rest = Found y"
  by (cases rest) (auto split: option.splits if_splits)

lemma cleanMeta_found:
  assumes "nestedFrom (VMap (cleanMeta m)) rest = Found x"
  shows "\<exists>y. nestedFrom (VMap m) rest = Found y"
proof (cases rest)
  case Nil then show ?thesis by simp
next
  case (Cons k rest2)
  with assms obtain v where v: "fmlookup (cleanMeta m) k = Some v" "nestedFrom v rest2 = Found x"
    by (auto split: option.splits)
  show ?thesis
  proof (cases "k = ''annotations'' \<or> k = ''labels''")
    case False
    with v have "fmlookup m k = Some v" by (simp add: cleanMeta_simps split: if_splits)
    with v Cons show ?thesis by simp
  next
    case True
    then obtain keys where "finalStr keys (fmlookup m k) = Some v"
      using v(1) by (auto simp: cleanMeta_simps split: if_splits)
    then obtain a where a: "fmlookup m k = Some (VMap a)" "v = VMap (fmfilter (\<lambda>k. k \<notin> set keys) a)"
      using finalStr_Some by blast
    with v(2) obtain y where "nestedFrom (VMap a) rest2 = Found y" using nested_filter by blast
    with a Cons show ?thesis by simp
  qed
qed

lemma never_adds: "hasField (fmdrop ''status'' (onMeta cleanMeta r)) p \<Longrightarrow> hasField r p"
proof (cases p)
  case Nil then show ?thesis by (simp add: hasField_def NestedFieldNoCopy_def)
next
  case (Cons k rest)
  assume h: "hasField (fmdrop ''status'' (onMeta cleanMeta r)) p"
  then obtain x where x: "nestedFrom (VMap (fmdrop ''status'' (onMeta cleanMeta r))) (k # rest) = Found x"
    unfolding hasField_def NestedFieldNoCopy_def Cons by (auto split: nested.splits)
  show ?thesis
  proof (cases "k = ''metadata''")
    case False
    with x have "nestedFrom (VMap r) (k # rest) = Found x"
      unfolding nested_clean by (simp split: if_splits)
    then show ?thesis unfolding hasField_def NestedFieldNoCopy_def Cons by simp
  next
    case True
    show ?thesis
    proof (cases "fmlookup r ''metadata''")
      case None with x True show ?thesis unfolding nested_clean by simp
    next
      case (Some v)
      show ?thesis
      proof (cases "is_VMap v")
        case False
        with x True Some have "nestedFrom v rest = Found x"
          unfolding nested_clean by (cases v) simp_all
        with Some True show ?thesis unfolding hasField_def NestedFieldNoCopy_def Cons by simp
      next
        case True
        then obtain m where m: "v = VMap m" by (cases v) auto
        with x \<open>k = ''metadata''\<close> Some have "nestedFrom (VMap (cleanMeta m)) rest = Found x"
          unfolding nested_clean by simp
        then obtain y where "nestedFrom (VMap m) rest = Found y" using cleanMeta_found by blast
        with Some m \<open>k = ''metadata''\<close> show ?thesis
          unfolding hasField_def NestedFieldNoCopy_def Cons by simp
      qed
    qed
  qed
qed

lemma finalStr_nested:
  assumes "case v0 of None \<Rightarrow> True | Some (VMap a) \<Rightarrow> fmpred (\<lambda>k v. is_VStr v) a | Some _ \<Rightarrow> False"
    and "k3 \<notin> set keys"
  shows "(case finalStr keys v0 of None \<Rightarrow> NotFound | Some v \<Rightarrow> nestedFrom v (k3 # rest3)) =
         (case v0 of None \<Rightarrow> NotFound | Some v \<Rightarrow> nestedFrom v (k3 # rest3))"
proof (cases v0)
  case None then show ?thesis by (simp add: finalStr_def)
next
  case (Some v)
  with assms(1) obtain a where a: "v = VMap a" "fmpred (\<lambda>k v. is_VStr v) a" by (cases v) auto
  have l: "fmlookup (fmfilter (\<lambda>k. k \<notin> set keys) a) k3 = fmlookup a k3"
    using assms(2) by simp
  show ?thesis
  proof (cases "fmfilter (\<lambda>k. k \<notin> set keys) a = fmempty")
    case True
    with l have "fmlookup a k3 = None" by simp
    with True Some a show ?thesis by (simp add: finalStr_def)
  next
    case False
    with Some a l show ?thesis by (simp add: finalStr_def)
  qed
qed

lemma cleanMeta_unrelated:
  assumes m: "fmlookup r ''metadata'' = Some (VMap m)"
    and sa: "stringMapField r ''annotations''" and sl: "stringMapField r ''labels''"
    and nr: "\<not> related (''metadata'' # rest)"
  shows "nestedFrom (VMap (cleanMeta m)) rest = nestedFrom (VMap m) rest"
proof (cases rest)
  case Nil with nr related_meta show ?thesis by (simp only: not_True_eq_False)
next
  case (Cons k2 rest2)
  have six: "k2 \<notin> set removedMetaKeys"
  proof
    assume "k2 \<in> set removedMetaKeys"
    from nr[unfolded Cons] related_six[OF this] show False by (rule notE)
  qed
  show ?thesis
  proof (cases "k2 = ''annotations'' \<or> k2 = ''labels''")
    case False
    with six have "fmlookup (cleanMeta m) k2 = fmlookup m k2"
      by (simp add: cleanMeta_simps del: insert_iff)
    then show ?thesis unfolding Cons by simp
  next
    case True
    show ?thesis
    proof (cases rest2)
      case Nil
      with True nr related_ann related_lab show ?thesis unfolding Cons by auto
    next
      case (Cons k3 rest3)
      note r2 = Cons
      from True show ?thesis
      proof
        assume k2: "k2 = ''annotations''"
        have nb: "k3 \<notin> set blockedAnnotations"
        proof
          assume "k3 \<in> set blockedAnnotations"
          from nr[unfolded \<open>rest = k2 # rest2\<close> r2 k2] related_ann_key[OF this] show False by (rule notE)
        qed
        from sa have "case fmlookup m ''annotations'' of None \<Rightarrow> True
           | Some (VMap a) \<Rightarrow> fmpred (\<lambda>k v. is_VStr v) a | Some _ \<Rightarrow> False"
          by (simp add: stringMapField_meta[OF m])
        from finalStr_nested[OF this nb, of rest3] show ?thesis
          unfolding \<open>rest = k2 # rest2\<close> r2 k2 by (simp add: cleanMeta_simps)
      next
        assume k2: "k2 = ''labels''"
        have nb: "k3 \<notin> set blockedLabels"
        proof
          assume "k3 \<in> set blockedLabels"
          from nr[unfolded \<open>rest = k2 # rest2\<close> r2 k2] related_lab_key[OF this] show False by (rule notE)
        qed
        from sl have "case fmlookup m ''labels'' of None \<Rightarrow> True
           | Some (VMap a) \<Rightarrow> fmpred (\<lambda>k v. is_VStr v) a | Some _ \<Rightarrow> False"
          by (simp add: stringMapField_meta[OF m])
        from finalStr_nested[OF this nb, of rest3] show ?thesis
          unfolding \<open>rest = k2 # rest2\<close> r2 k2 by (simp add: cleanMeta_simps)
      qed
    qed
  qed
qed

lemma unrelated_same:
  assumes sa: "stringMapField r ''annotations''" and sl: "stringMapField r ''labels''"
    and nr: "\<not> related p"
  shows "nestedFrom (VMap (fmdrop ''status'' (onMeta cleanMeta r))) p = nestedFrom (VMap r) p"
proof (cases p)
  case Nil with nr related_Nil show ?thesis by simp
next
  case (Cons k rest)
  from nr related_status have ks: "k \<noteq> ''status''" unfolding Cons by blast
  show ?thesis
  proof (cases "k = ''metadata''")
    case False
    with ks show ?thesis unfolding Cons nested_clean by simp
  next
    case True
    show ?thesis
    proof (cases "fmlookup r ''metadata''")
      case None with True show ?thesis unfolding Cons nested_clean by simp
    next
      case (Some v)
      show ?thesis
      proof (cases "is_VMap v")
        case False
        with Some True show ?thesis unfolding Cons nested_clean by (cases v) simp_all
      next
        case True
        then obtain m where m: "v = VMap m" by (cases v) auto
        from cleanMeta_unrelated[OF Some[unfolded m] sa sl nr[unfolded Cons \<open>k = ''metadata''\<close>]]
        show ?thesis using Some m \<open>k = ''metadata''\<close> unfolding Cons nested_clean by simp
      qed
    qed
  qed
qed

lemma not_under_ne: "\<not> underBlocked p \<Longrightarrow> b \<in> set blockedPaths \<Longrightarrow> p \<noteq> b"
  by (auto simp: underBlocked_def list_ex_iff)

lemma prefixes_of_blocked:
  assumes "b \<in> set blockedPaths" and "prefix p b" and "p \<noteq> b"
  shows "p = [] \<or> p = [''metadata''] \<or> p = [''metadata'', ''annotations''] \<or> p = [''metadata'', ''labels'']"
proof -
  from assms(1) have
    "(\<exists>k. b = [''metadata'', k]) \<or> b = [''status''] \<or>
     (\<exists>k. b = [''metadata'', ''annotations'', k]) \<or> (\<exists>k. b = [''metadata'', ''labels'', k])"
    by (auto simp: blockedPaths_def blockedFieldPaths_def blockedKeyPaths_def)
  with assms(2,3) show ?thesis by (auto simp: prefix_Cons)
qed

lemma strict_ancestors:
  assumes "related p" and "\<not> underBlocked p"
  shows "p = [] \<or> p = [''metadata''] \<or> p = [''metadata'', ''annotations''] \<or> p = [''metadata'', ''labels'']"
proof -
  from assms obtain b where b: "b \<in> set blockedPaths" "prefix p b"
    by (auto simp: related_def underBlocked_def list_ex_iff)
  from not_under_ne[OF assms(2) b(1)] prefixes_of_blocked[OF b] show ?thesis by blast
qed

lemma finalStr_nonempty:
  assumes "fmpred (\<lambda>k v. is_VStr v) a" and "\<not> fmpred (\<lambda>k v. k \<in> set keys) a"
  shows "finalStr keys (Some (VMap a)) \<noteq> None"
proof -
  from assms(2) obtain x y where xy: "fmlookup a x = Some y" "x \<notin> set keys"
    by (auto simp: fmpred_iff)
  then have "fmlookup (fmfilter (\<lambda>k. k \<notin> set keys) a) x = Some y" by simp
  then have "fmfilter (\<lambda>k. k \<notin> set keys) a \<noteq> fmempty"
    by (metis fmempty_lookup option.distinct(1))
  with assms(1) show ?thesis by (simp add: finalStr_def)
qed

lemma hasField_meta_field:
  "hasField r [''metadata'', f] \<longleftrightarrow>
     (\<exists>m v. fmlookup r ''metadata'' = Some (VMap m) \<and> fmlookup m f = Some v)"
proof -
  have "hasField r [''metadata'', f] \<longleftrightarrow> (\<exists>v. NestedFieldNoCopy r [''metadata'', f] = Found v)"
    unfolding hasField_def by (cases "NestedFieldNoCopy r [''metadata'', f]") simp_all
  then show ?thesis unfolding nested_meta_field by blast
qed

lemma fieldAt_meta_field:
  "fmlookup r ''metadata'' = Some (VMap m) \<Longrightarrow> fieldAt r [''metadata'', f] = fmlookup m f"
  by (simp add: fieldAt_def NestedFieldNoCopy_def split: option.splits)

lemma map_field_kept:
  assumes s: "stringMapField r f" and h: "hasField r [''metadata'', f]"
    and ne: "\<not> (case fieldAt r [''metadata'', f] of
                  Some (VMap a) \<Rightarrow> fmpred (\<lambda>k v. k \<in> set keys) a | _ \<Rightarrow> False)"
    and lk: "\<And>m. fmlookup (cleanMeta m) f = finalStr keys (fmlookup m f)"
  shows "hasField (fmdrop ''status'' (onMeta cleanMeta r)) [''metadata'', f]"
proof -
  from h obtain m v where m: "fmlookup r ''metadata'' = Some (VMap m)" and v: "fmlookup m f = Some v"
    unfolding hasField_meta_field by blast
  from s m v obtain a where a: "v = VMap a" "fmpred (\<lambda>k v. is_VStr v) a"
    by (cases v) (simp_all add: stringMapField_meta)
  from ne m v a have "\<not> fmpred (\<lambda>k v. k \<in> set keys) a"
    by (simp add: fieldAt_meta_field)
  with a have "finalStr keys (Some (VMap a)) \<noteq> None" by (simp add: finalStr_nonempty)
  with m v a show ?thesis
    by (auto simp: hasField_clean_meta lk split: option.splits)
qed

lemma presence_kept:
  assumes sa: "stringMapField r ''annotations''" and sl: "stringMapField r ''labels''"
    and h: "hasField r p" and nu: "\<not> underBlocked p" and ne: "\<not> emptied r p"
  shows "hasField (fmdrop ''status'' (onMeta cleanMeta r)) p"
proof (cases "related p")
  case False
  from unrelated_same[OF sa sl False] h show ?thesis
    by (simp add: hasField_def NestedFieldNoCopy_def)
next
  case True
  from strict_ancestors[OF True nu] consider
    "p = []" | "p = [''metadata'']" | "p = [''metadata'', ''annotations'']" | "p = [''metadata'', ''labels'']"
    by blast
  then show ?thesis
  proof cases
    case 1 then show ?thesis by (simp add: hasField_def NestedFieldNoCopy_def)
  next
    case 2
    with h show ?thesis
      by (auto simp: hasField_top onMeta_def split: option.splits val.splits)
  next
    case 3
    from ne have "\<not> (case fieldAt r [''metadata'', ''annotations''] of
                  Some (VMap a) \<Rightarrow> fmpred (\<lambda>k v. k \<in> set blockedAnnotations) a | _ \<Rightarrow> False)"
      unfolding emptied_def 3 by simp
    from map_field_kept[OF sa h[unfolded 3] this] show ?thesis
      unfolding 3 by (simp add: cleanMeta_simps)
  next
    case 4
    from ne have "\<not> (case fieldAt r [''metadata'', ''labels''] of
                  Some (VMap a) \<Rightarrow> fmpred (\<lambda>k v. k \<in> set blockedLabels) a | _ \<Rightarrow> False)"
      unfolding emptied_def 4 by simp
    from map_field_kept[OF sl h[unfolded 4] this] show ?thesis
      unfolding 4 by (simp add: cleanMeta_simps)
  qed
qed

text \<open>
  Claim C10 as stated fails on an object whose annotations hold a value that is not a
  string: \<^verbatim>\<open>GetAnnotations\<close> then yields the nil map and \<^verbatim>\<open>SetAnnotations(nil)\<close> removes the
  whole field, so the unblocked key \<^verbatim>\<open>note\<close> is lost although nothing became empty.
\<close>

theorem sanitize_frame_counterexample:
  "\<not> related [''metadata'', ''annotations'', ''note''] \<and>
   \<not> emptied ex_numeric_ann [''metadata'', ''annotations''] \<and>
   fieldAt ex_numeric_ann [''metadata'', ''annotations'', ''note''] = Some (VInt 1) \<and>
   cleanResource ex_numeric_ann = Some (fmap_of_list [(''metadata'', VMap fmempty)]) \<and>
   fieldAt (fmap_of_list [(''metadata'', VMap fmempty)]) [''metadata'', ''annotations'', ''note''] = None"
  by code_simp

text \<open>
  Claim C10, amended. On an object whose \<^verbatim>\<open>metadata.annotations\<close> and \<^verbatim>\<open>metadata.labels\<close>
  are each absent or a mapping of strings, \<^verbatim>\<open>cleanResource\<close> returns an object in which
  every path that is neither on, above nor below a blocked path has the value it had; every
  path that was present and is not on or below a blocked path is still present, except an
  annotations or labels mapping that becomes empty; and no path is present that was absent.
\<close>

theorem sanitize_frame:
  assumes "stringMapField r ''annotations''" and "stringMapField r ''labels''"
  shows "\<exists>r'. cleanResource r = Some r' \<and>
           (\<forall>p. \<not> related p \<longrightarrow> fieldAt r' p = fieldAt r p) \<and>
           (\<forall>p. hasField r p \<and> \<not> underBlocked p \<and> \<not> emptied r p \<longrightarrow> hasField r' p) \<and>
           (\<forall>p. hasField r' p \<longrightarrow> hasField r p)"
proof (intro exI conjI allI impI)
  show "cleanResource r = Some (fmdrop ''status'' (onMeta cleanMeta r))"
    by (rule cleanResource_eq)
next
  fix p assume "\<not> related p"
  from unrelated_same[OF assms this]
  show "fieldAt (fmdrop ''status'' (onMeta cleanMeta r)) p = fieldAt r p"
    by (simp add: fieldAt_def NestedFieldNoCopy_def)
next
  fix p assume "hasField r p \<and> \<not> underBlocked p \<and> \<not> emptied r p"
  then show "hasField (fmdrop ''status'' (onMeta cleanMeta r)) p"
    using presence_kept[OF assms] by blast
next
  fix p assume "hasField (fmdrop ''status'' (onMeta cleanMeta r)) p"
  then show "hasField r p" by (rule never_adds)
qed

text \<open>On the Deployment: \<^verbatim>\<open>spec.replicas\<close> keeps its value, the labels mapping stays, and
  \<^verbatim>\<open>kind\<close>, present afterwards, was present before.\<close>

theorem sanitize_frame_witness:
  "stringMapField ex_deployment ''annotations'' \<and> stringMapField ex_deployment ''labels'' \<and>
   \<not> related [''spec'', ''replicas''] \<and>
   hasField ex_deployment [''metadata'', ''labels''] \<and> \<not> underBlocked [''metadata'', ''labels''] \<and>
   \<not> emptied ex_deployment [''metadata'', ''labels''] \<and>
   (\<exists>r'. cleanResource ex_deployment = Some r' \<and>
         fieldAt r' [''spec'', ''replicas''] = Some (VInt 2) \<and>
         hasField r' [''metadata'', ''labels''] \<and>
         hasField r' [''kind''] \<and> hasField ex_deployment [''kind''])"
proof -
  have h1: "stringMapField ex_deployment ''annotations''" by code_simp
  have h2: "stringMapField ex_deployment ''labels''" by code_simp
  have h3: "\<not> related [''spec'', ''replicas'']" by code_simp
  have h4: "hasField ex_deployment [''metadata'', ''labels''] \<and> \<not> underBlocked [''metadata'', ''labels''] \<and>
            \<not> emptied ex_deployment [''metadata'', ''labels'']" by code_simp
  have h5: "fieldAt ex_deployment [''spec'', ''replicas''] = Some (VInt 2)" by code_simp
  have h6: "cleanResource ex_deployment = Some ex_deployment_clean" by code_simp
  have h7: "hasField ex_deployment_clean [''kind'']" by code_simp
  from sanitize_frame[OF h1 h2] obtain r' where r': "cleanResource ex_deployment = Some r'"
    and A: "\<forall>p. \<not> related p \<longrightarrow> fieldAt r' p = fieldAt ex_deployment p"
    and B: "\<forall>p. hasField ex_deployment p \<and> \<not> underBlocked p \<and> \<not> emptied ex_deployment p \<longrightarrow> hasField r' p"
    and C: "\<forall>p. hasField r' p \<longrightarrow> hasField ex_deployment p"
    by blast
  from A h3 h5 have a: "fieldAt r' [''spec'', ''replicas''] = Some (VInt 2)" by simp
  from B h4 have b: "hasField r' [''metadata'', ''labels'']" by blast
  from r' h6 h7 have c: "hasField r' [''kind'']" by simp
  with C have "hasField ex_deployment [''kind'']" by blast
  with r' a b c h1 h2 h3 h4 show ?thesis by blast
qed

section \<open>Properties of the path functions\<close>

text \<open>The models on examples: \<^verbatim>\<open>Split\<close>, \<^verbatim>\<open>Clean\<close> and \<^verbatim>\<open>Join\<close> on rows of the kind Go's own
  test tables hold, and \<^verbatim>\<open>TrimSpace\<close> on ASCII and on multi-byte white space.\<close>

lemma Split_examples:
  "Split ''metadata.annotations'' (CHR ''.'') = [''metadata'', ''annotations'']"
  "Split [] (CHR ''.'') = [[]]"
  "Split ''a..b'' (CHR ''.'') = [''a'', [], ''b'']"
  "Split ''.a.'' (CHR ''.'') = [[], ''a'', []]"
  "Split ''status'' (CHR ''.'') = [''status'']"
  by code_simp+

lemma Clean_examples:
  "Clean [] = ''.''"
  "Clean ''abc//def//ghi'' = ''abc/def/ghi''"
  "Clean ''abc/def/../ghi/../jkl'' = ''abc/jkl''"
  "Clean ''abc/./../def'' = ''def''"
  "Clean ''../../abc'' = ''../../abc''"
  "Clean ''abc/def/../../..'' = ''..''"
  "Clean ''/..'' = ''/''"
  "Clean ''/abc/'' = ''/abc''"
  "Clean ''./resources'' = ''resources''"
  by code_simp+

lemma Join_examples:
  "Join [''a'', ''b''] = ''a/b''"
  "Join [''a'', []] = ''a''"
  "Join [[], ''b''] = ''b''"
  "Join [''a/'', ''b''] = ''a/b''"
  "Join [''a'', ''../b''] = ''b''"
  "Join [''resources'', ''original''] = ''resources/original''"
  by code_simp+

lemma TrimSpace_examples:
  "TrimSpace '' ns-a  '' = ''ns-a''"
  "TrimSpace ''a b'' = ''a b''"
  "TrimSpace [CHR 0xC2, CHR 0xA0, CHR ''x'', CHR 0xE2, CHR 0x80, CHR 0x80, CHR 0x0A] = ''x''"
  by code_simp+

lemma Split_nonempty: "Split s sep \<noteq> []"
  by (induction s) (auto split: list.splits)

lemma Split_append: "Split (a @ sep # b) sep = Split a sep @ Split b sep"
proof (induction a)
  case Nil show ?case by simp
next
  case (Cons c cs)
  obtain w ws where w: "Split cs sep = w # ws"
    using Split_nonempty[of cs sep] by (cases "Split cs sep") auto
  with Cons show ?case by simp
qed

lemma Split_nosep: "sep \<notin> set n \<Longrightarrow> Split n sep = [n]"
  by (induction n) auto

lemma cleanElems_append:
  "cleanElems r out (xs @ ys) = cleanElems r (cleanElems r out xs) ys"
  by (induction r out xs rule: cleanElems.induct) auto

lemma joinSep_snoc: "xs \<noteq> [] \<Longrightarrow> joinSep (xs @ [n]) = joinSep xs @ Separator # n"
  by (induction xs rule: joinSep.induct) auto

lemma cleanElems_valid: "validName n \<Longrightarrow> cleanElems r out [n] = out @ [n]"
  by (simp add: validName_def)

lemma Clean_child:
  assumes p: "cleanDir p" and n: "validName n"
  shows "Clean (p @ Separator # n) = p @ Separator # n"
proof -
  define r where "r = (p \<noteq> [] \<and> hd p = Separator)"
  define out where "out = cleanElems r [] (Split p Separator)"
  have Cp: "Clean p = (if r then Separator # joinSep out else if out = [] then ''.'' else joinSep out)"
    by (simp add: Clean_def Let_def r_def out_def)
  from p have pne: "p \<noteq> []" by (auto simp: cleanDir_def Clean_def)
  then have r': "(p @ Separator # n \<noteq> [] \<and> hd (p @ Separator # n) = Separator) = r"
    by (simp add: r_def)
  from n have sn: "Split n Separator = [n]" by (simp add: Split_nosep validName_def)
  have "cleanElems r [] (Split (p @ Separator # n) Separator) = cleanElems r out [n]"
    by (simp only: Split_append sn cleanElems_append out_def)
  also have "\<dots> = out @ [n]" by (rule cleanElems_valid[OF n])
  finally have out': "cleanElems r [] (Split (p @ Separator # n) Separator) = out @ [n]" .
  have Cc: "Clean (p @ Separator # n) = (if r then Separator # joinSep (out @ [n]) else joinSep (out @ [n]))"
    unfolding Clean_def Let_def r' out' by simp
  from p have cp: "Clean p = p" and nd: "p \<noteq> ''.''" and nr: "p \<noteq> [Separator]"
    by (simp_all add: cleanDir_def)
  have one: "out \<noteq> []"
  proof
    assume "out = []"
    with Cp cp have "p = [Separator] \<or> p = ''.''" by (simp split: if_splits)
    with nd nr show False by blast
  qed
  from Cp cp one have "p = (if r then Separator # joinSep out else joinSep out)" by simp
  then have "p @ Separator # n = (if r then Separator # joinSep (out @ [n]) else joinSep (out @ [n]))"
    using one by (simp add: joinSep_snoc split: if_splits)
  with Cc show ?thesis by simp
qed

lemma Join_child:
  assumes p: "cleanDir p" and n: "validName n"
  shows "Join [p, n] = p @ Separator # n" and "cleanDir (p @ Separator # n)"
proof -
  from p have pne: "p \<noteq> []" by (auto simp: cleanDir_def Clean_def)
  then show "Join [p, n] = p @ Separator # n" by (simp add: Clean_child[OF p n])
  from pne have "p @ Separator # n \<noteq> ''.''" "p @ Separator # n \<noteq> [Separator]"
    by (cases p; simp)+
  then show "cleanDir (p @ Separator # n)"
    by (simp add: cleanDir_def Clean_child[OF p n])
qed


section \<open>Properties of the cluster walker\<close>

subsection \<open>The original variant is written as fetched\<close>

lemma cleanResource_total: "\<exists>r'. cleanResource r = Some r'"
  by (simp add: cleanResource_eq)




lemma saveItem_unfold:
  "cleanResource item = Some r' \<Longrightarrow>
   saveItem w od md item st = Some (afterModified w md item r' (afterOriginal w od item st))"
  by (simp add: saveItem_def afterOriginal_def afterModified_def Let_def split_def del: Join.simps)

lemma saveItem_total: "\<exists>st'. saveItem w od md item st = Some st'"
  using cleanResource_total[of item] saveItem_unfold by blast






lemma saveItems_total: "\<exists>st'. saveItems w od md items st = Some st'"
proof (induction items arbitrary: st)
  case Nil show ?case by simp
next
  case (Cons item items)
  obtain s where "saveItem w od md item st = Some s" using saveItem_total by blast
  with Cons show ?case by simp
qed







text \<open>The directories that \<^verbatim>\<open>main\<close> passes to the item loop, for a namespace whose name is a
  valid path element, are distinct clean paths.\<close>

lemma validName_resource: "res \<in> set resourceTypes \<Longrightarrow> validName (Resource res)"
  by (auto simp: resourceTypes_def validName_def Separator_def)

lemma main_resource_dirs:
  assumes "validName ns" and "res \<in> set resourceTypes"
  shows "cleanDir (Join [Join [Join [baseOutputDir, ''original''], ns], Resource res])"
    and "cleanDir (Join [Join [Join [baseOutputDir, ''modified''], ns], Resource res])"
    and "Join [Join [Join [baseOutputDir, ''original''], ns], Resource res] \<noteq>
         Join [Join [Join [baseOutputDir, ''modified''], ns], Resource res]"
proof -
  have o: "Join [baseOutputDir, ''original''] = ''resources/original''"
    and m: "Join [baseOutputDir, ''modified''] = ''resources/modified''" by code_simp+
  have co: "cleanDir ''resources/original''" and cm: "cleanDir ''resources/modified''" by code_simp+
  note r = validName_resource[OF assms(2)]
  note no = Join_child[OF co assms(1)] and nm = Join_child[OF cm assms(1)]
  note ro = Join_child[OF no(2) r] and rm = Join_child[OF nm(2) r]
  show "cleanDir (Join [Join [Join [baseOutputDir, ''original''], ns], Resource res])"
    unfolding o no(1) ro(1) by (rule ro(2))
  show "cleanDir (Join [Join [Join [baseOutputDir, ''modified''], ns], Resource res])"
    unfolding m nm(1) rm(1) by (rule rm(2))
  show "Join [Join [Join [baseOutputDir, ''original''], ns], Resource res] \<noteq>
         Join [Join [Join [baseOutputDir, ''modified''], ns], Resource res]"
    unfolding o m no(1) nm(1) ro(1) rm(1) by simp
qed



subsection \<open>A failed namespace directory\<close>

text \<open>Kinds without objects leave the files alone and print two lines each.\<close>

lemma quiet_kinds:
  assumes "\<forall>res \<in> set kinds. api_List w res ns = Some []"
  shows "saveResourceTypes w ns ond mnd kinds st =
     Some (st\<lparr>trace := trace st @
        concat (map (\<lambda>res. [ProcessingResourceType (Resource res), NoneFound (Resource res) ns]) kinds)\<rparr>)"
  using assms
proof (induction kinds arbitrary: st)
  case Nil show ?case by simp
next
  case (Cons res kinds)
  from Cons.prems have l: "api_List w res ns = Some []" by simp
  have "saveResourceType w ns ond mnd res st =
      Some (st\<lparr>trace := trace st @ [ProcessingResourceType (Resource res), NoneFound (Resource res) ns]\<rparr>)"
    by (simp add: saveResourceType_def Let_def l emit_def)
  with Cons show ?case by simp
qed

text \<open>The walk over \<^verbatim>\<open>ns-a\<close> when everything works: the namespace object and the Deployment,
  each in both variants, and a line for every kind that has no object.\<close>

lemma working_run:
  "captureCluster ex_world [''ns-a''] =
     Some \<lparr>file_data = fmap_of_list
              [(''resources/original/ns-a/ns-a.yaml'', ''kind;metadata/name;metadata/uid;status;''),
               (''resources/modified/ns-a/ns-a.yaml'', ''kind;metadata/name;''),
               (''resources/original/ns-a/deployments/web.yaml'',
                ''kind;metadata/name;metadata/uid;spec;status;''),
               (''resources/modified/ns-a/deployments/web.yaml'', ''kind;metadata/name;spec;'')],
           trace =
             [ProcessingNamespace ''ns-a'',
              CallMkdirAll ''resources/original/ns-a'' True,
              CallMkdirAll ''resources/modified/ns-a'' True,
              CallCreate ''resources/original/ns-a/ns-a.yaml'' True,
              CallCreate ''resources/modified/ns-a/ns-a.yaml'' True,
              ProcessingResourceType ''deployments'',
              CallMkdirAll ''resources/original/ns-a/deployments'' True,
              CallMkdirAll ''resources/modified/ns-a/deployments'' True,
              SavingResource ''resources/original/ns-a/deployments/web.yaml'',
              CallCreate ''resources/original/ns-a/deployments/web.yaml'' True,
              CallCreate ''resources/modified/ns-a/deployments/web.yaml'' True] @
             concat (map (\<lambda>res. [ProcessingResourceType (Resource res), NoneFound (Resource res) ''ns-a''])
                       (tl resourceTypes))\<rparr>"
proof -
  let ?w = ex_world
  let ?ond = "''resources/original/ns-a''" and ?mnd = "''resources/modified/ns-a''"
  let ?t3 = "[ProcessingNamespace ''ns-a'',
              CallMkdirAll ''resources/original/ns-a'' True,
              CallMkdirAll ''resources/modified/ns-a'' True]"
  let ?t5 = "?t3 @ [CallCreate ''resources/original/ns-a/ns-a.yaml'' True,
              CallCreate ''resources/modified/ns-a/ns-a.yaml'' True]"
  let ?t11 = "?t5 @ [ProcessingResourceType ''deployments'',
              CallMkdirAll ''resources/original/ns-a/deployments'' True,
              CallMkdirAll ''resources/modified/ns-a/deployments'' True,
              SavingResource ''resources/original/ns-a/deployments/web.yaml'',
              CallCreate ''resources/original/ns-a/deployments/web.yaml'' True,
              CallCreate ''resources/modified/ns-a/deployments/web.yaml'' True]"
  let ?f2 = "fmap_of_list
              [(''resources/original/ns-a/ns-a.yaml'', ''kind;metadata/name;metadata/uid;status;''),
               (''resources/modified/ns-a/ns-a.yaml'', ''kind;metadata/name;'')]"
  let ?f4 = "fmap_of_list
              [(''resources/original/ns-a/ns-a.yaml'', ''kind;metadata/name;metadata/uid;status;''),
               (''resources/modified/ns-a/ns-a.yaml'', ''kind;metadata/name;''),
               (''resources/original/ns-a/deployments/web.yaml'',
                ''kind;metadata/name;metadata/uid;spec;status;''),
               (''resources/modified/ns-a/deployments/web.yaml'', ''kind;metadata/name;spec;'')]"
  have f1: "TrimSpace ''ns-a'' = ''ns-a''" by code_simp
  have f2: "Join [Join [baseOutputDir, ''original''], ''ns-a''] = ?ond"
           "Join [Join [baseOutputDir, ''modified''], ''ns-a''] = ?mnd" by code_simp+
  have f3: "makeDirs ?w (NamespaceDirError ''ns-a'') [?ond, ?mnd]
              (emit (ProcessingNamespace ''ns-a'') \<lparr>file_data = fmempty, trace = []\<rparr>) =
            \<lparr>file_data = fmempty, trace = ?t3\<rparr>" by code_simp
  have f4: "saveNamespaceResource ?w ''ns-a'' ?ond ?mnd \<lparr>file_data = fmempty, trace = ?t3\<rparr> =
            Some (None, \<lparr>file_data = ?f2, trace = ?t5\<rparr>)"
    by code_simp
  have f5: "saveResourceType ?w ''ns-a'' ?ond ?mnd \<lparr>Group = ''apps'', Version = ''v1'', Resource = ''deployments''\<rparr>
              \<lparr>file_data = ?f2, trace = ?t5\<rparr> =
            Some \<lparr>file_data = ?f4, trace = ?t11\<rparr>"
    by code_simp
  have rt: "resourceTypes = \<lparr>Group = ''apps'', Version = ''v1'', Resource = ''deployments''\<rparr> # tl resourceTypes"
    by (simp add: resourceTypes_def)
  have q: "\<forall>res \<in> set (tl resourceTypes). api_List ?w res ''ns-a'' = Some []"
    by (simp add: resourceTypes_def ex_world_def)
  have "saveResourceTypes ?w ''ns-a'' ?ond ?mnd resourceTypes \<lparr>file_data = ?f2, trace = ?t5\<rparr> =
        Some \<lparr>file_data = ?f4, trace = ?t11 @
             concat (map (\<lambda>res. [ProcessingResourceType (Resource res), NoneFound (Resource res) ''ns-a''])
                       (tl resourceTypes))\<rparr>"
    apply (subst rt)
    apply (simp only: saveResourceTypes.simps f5 option.case quiet_kinds[OF q])
    apply simp
    done
  then show ?thesis
    unfolding captureCluster_def saveNamespaces.simps saveNamespace_def Let_def f1 f2 f3 f4
    by (simp del: Join.simps)
qed

text \<open>The same walk when the original directory of the namespace cannot be created.\<close>

lemma nodir_run:
  "captureCluster ex_world_nodir [''ns-a''] =
     Some \<lparr>file_data = fmap_of_list
              [(''resources/modified/ns-a/deployments/web.yaml'', ''kind;metadata/name;spec;'')],
           trace =
             [ProcessingNamespace ''ns-a'',
              CallMkdirAll ''resources/original/ns-a'' False,
              NamespaceDirError ''ns-a'',
              CallMkdirAll ''resources/modified/ns-a'' True,
              CallCreate ''resources/original/ns-a/ns-a.yaml'' False,
              SaveNamespaceError ''ns-a'' (ErrSaveOriginal ErrCreate),
              ProcessingResourceType ''deployments'',
              CallMkdirAll ''resources/original/ns-a/deployments'' False,
              ResourceDirError ''deployments'',
              CallMkdirAll ''resources/modified/ns-a/deployments'' True,
              SavingResource ''resources/original/ns-a/deployments/web.yaml'',
              CallCreate ''resources/original/ns-a/deployments/web.yaml'' False,
              SaveOriginalError ''web'',
              CallCreate ''resources/modified/ns-a/deployments/web.yaml'' True] @
             concat (map (\<lambda>res. [ProcessingResourceType (Resource res), NoneFound (Resource res) ''ns-a''])
                       (tl resourceTypes))\<rparr>"
proof -
  let ?w = ex_world_nodir
  let ?ond = "''resources/original/ns-a''" and ?mnd = "''resources/modified/ns-a''"
  let ?t4 = "[ProcessingNamespace ''ns-a'',
              CallMkdirAll ''resources/original/ns-a'' False,
              NamespaceDirError ''ns-a'',
              CallMkdirAll ''resources/modified/ns-a'' True]"
  let ?t14 = "?t4 @ [CallCreate ''resources/original/ns-a/ns-a.yaml'' False,
              SaveNamespaceError ''ns-a'' (ErrSaveOriginal ErrCreate),
              ProcessingResourceType ''deployments'',
              CallMkdirAll ''resources/original/ns-a/deployments'' False,
              ResourceDirError ''deployments'',
              CallMkdirAll ''resources/modified/ns-a/deployments'' True,
              SavingResource ''resources/original/ns-a/deployments/web.yaml'',
              CallCreate ''resources/original/ns-a/deployments/web.yaml'' False,
              SaveOriginalError ''web'',
              CallCreate ''resources/modified/ns-a/deployments/web.yaml'' True]"
  let ?files = "fmap_of_list
              [(''resources/modified/ns-a/deployments/web.yaml'', ''kind;metadata/name;spec;'')]"
  have f1: "TrimSpace ''ns-a'' = ''ns-a''" by code_simp
  have f2: "Join [Join [baseOutputDir, ''original''], ''ns-a''] = ?ond"
           "Join [Join [baseOutputDir, ''modified''], ''ns-a''] = ?mnd" by code_simp+
  have f3: "makeDirs ?w (NamespaceDirError ''ns-a'') [?ond, ?mnd]
              (emit (ProcessingNamespace ''ns-a'') \<lparr>file_data = fmempty, trace = []\<rparr>) =
            \<lparr>file_data = fmempty, trace = ?t4\<rparr>" by code_simp
  have f4: "saveNamespaceResource ?w ''ns-a'' ?ond ?mnd \<lparr>file_data = fmempty, trace = ?t4\<rparr> =
            Some (Some (ErrSaveOriginal ErrCreate),
                  \<lparr>file_data = fmempty, trace = ?t4 @ [CallCreate ''resources/original/ns-a/ns-a.yaml'' False]\<rparr>)"
    by code_simp
  have f5: "saveResourceType ?w ''ns-a'' ?ond ?mnd \<lparr>Group = ''apps'', Version = ''v1'', Resource = ''deployments''\<rparr>
              (emit (SaveNamespaceError ''ns-a'' (ErrSaveOriginal ErrCreate))
                 \<lparr>file_data = fmempty, trace = ?t4 @ [CallCreate ''resources/original/ns-a/ns-a.yaml'' False]\<rparr>) =
            Some \<lparr>file_data = ?files, trace = ?t14\<rparr>"
    by code_simp
  have rt: "resourceTypes = \<lparr>Group = ''apps'', Version = ''v1'', Resource = ''deployments''\<rparr> # tl resourceTypes"
    by (simp add: resourceTypes_def)
  have q: "\<forall>res \<in> set (tl resourceTypes). api_List ?w res ''ns-a'' = Some []"
    by (simp add: resourceTypes_def ex_world_nodir_def ex_world_def)
  have "saveResourceTypes ?w ''ns-a'' ?ond ?mnd resourceTypes
          (emit (SaveNamespaceError ''ns-a'' (ErrSaveOriginal ErrCreate))
                 \<lparr>file_data = fmempty, trace = ?t4 @ [CallCreate ''resources/original/ns-a/ns-a.yaml'' False]\<rparr>) =
        Some \<lparr>file_data = ?files, trace = ?t14 @
             concat (map (\<lambda>res. [ProcessingResourceType (Resource res), NoneFound (Resource res) ''ns-a''])
                       (tl resourceTypes))\<rparr>"
    apply (subst rt)
    apply (simp only: saveResourceTypes.simps f5 option.case quiet_kinds[OF q])
    apply simp
    done
  then show ?thesis
    unfolding captureCluster_def saveNamespaces.simps saveNamespace_def Let_def f1 f2 f3 f4
    by (simp del: Join.simps)
qed

text \<open>
  Claim C3 at a namespace whose original directory cannot be created. The failure is
  printed and the run goes on, but nothing is skipped: \<^verbatim>\<open>continue\<close> only ends the turn of
  the two-directory loop. The namespace object is still fetched and \<^verbatim>\<open>os.Create\<close> is called
  below the failed directory, and so for every item of every kind. And as the write of
  the original namespace file fails, \<^verbatim>\<open>saveNamespaceResource\<close> returns before writing the
  modified one, whose directory was created: the only file of the run is the modified
  Deployment.
\<close>

theorem failed_namespace_dir_not_skipped:
  "map_option (\<lambda>s. take 14 (trace s)) (captureCluster ex_world_nodir [''ns-a'']) =
     Some [ProcessingNamespace ''ns-a'',
           CallMkdirAll ''resources/original/ns-a'' False,
           NamespaceDirError ''ns-a'',
           CallMkdirAll ''resources/modified/ns-a'' True,
           CallCreate ''resources/original/ns-a/ns-a.yaml'' False,
           SaveNamespaceError ''ns-a'' (ErrSaveOriginal ErrCreate),
           ProcessingResourceType ''deployments'',
           CallMkdirAll ''resources/original/ns-a/deployments'' False,
           ResourceDirError ''deployments'',
           CallMkdirAll ''resources/modified/ns-a/deployments'' True,
           SavingResource ''resources/original/ns-a/deployments/web.yaml'',
           CallCreate ''resources/original/ns-a/deployments/web.yaml'' False,
           SaveOriginalError ''web'',
           CallCreate ''resources/modified/ns-a/deployments/web.yaml'' True] \<and>
   map_option (\<lambda>s. failedDirsUntouched (trace s)) (captureCluster ex_world_nodir [''ns-a'']) = Some False \<and>
   map_option file_data (captureCluster ex_world_nodir [''ns-a'']) =
     Some (fmap_of_list [(''resources/modified/ns-a/deployments/web.yaml'', ''kind;metadata/name;spec;'')])"
  unfolding nodir_run by (simp add: below_def Separator_def)

subsection \<open>What does hold of a failed directory: the walk goes on\<close>

lemma started_append:
  "namespacesStarted (xs @ ys) = namespacesStarted xs @ namespacesStarted ys"
  by (induction xs) (simp_all add: namespacesStarted_def List.map_filter_simps split: option.splits)

lemma started_emit:
  "startedNamespace e = None \<Longrightarrow> namespacesStarted (trace (emit e st)) = namespacesStarted (trace st)"
  by (simp add: emit_def started_append) (simp add: namespacesStarted_def List.map_filter_simps)

lemma trace_put_file: "trace (put_file p c st) = trace st"
  by (simp add: put_file_def)

lemma started_save:
  "namespacesStarted (trace (snd (saveResourceAsYAML w r p st))) = namespacesStarted (trace st)"
  by (simp add: saveResourceAsYAML_def Let_def trace_put_file started_emit split: option.splits)

lemma started_afterOriginal:
  "namespacesStarted (trace (afterOriginal w od item st)) = namespacesStarted (trace st)"
  by (simp add: afterOriginal_def Let_def started_save started_emit del: Join.simps)

lemma started_afterModified:
  "namespacesStarted (trace (afterModified w md item r' st)) = namespacesStarted (trace st)"
  by (simp add: afterModified_def Let_def started_save started_emit del: Join.simps)

lemma started_saveItems:
  "saveItems w od md items st = Some st' \<Longrightarrow> namespacesStarted (trace st') = namespacesStarted (trace st)"
proof (induction items arbitrary: st)
  case Nil then show ?case by simp
next
  case (Cons item items)
  obtain r' where r': "cleanResource item = Some r'" using cleanResource_total by blast
  from Cons.prems have "saveItems w od md items (afterModified w md item r' (afterOriginal w od item st)) = Some st'"
    by (simp add: saveItem_unfold[OF r'])
  from Cons.IH[OF this] show ?case by (simp add: started_afterModified started_afterOriginal)
qed

lemma started_makeDirs:
  "startedNamespace complaint = None \<Longrightarrow>
   namespacesStarted (trace (makeDirs w complaint dirs st)) = namespacesStarted (trace st)"
  by (induction dirs arbitrary: st) (simp_all add: started_emit)

lemma saveResourceType_total: "\<exists>st'. saveResourceType w ns ond mnd res st = Some st'"
  using saveItems_total by (simp add: saveResourceType_def Let_def split: option.splits del: Join.simps)

lemma started_saveResourceType:
  "saveResourceType w ns ond mnd res st = Some st' \<Longrightarrow>
   namespacesStarted (trace st') = namespacesStarted (trace st)"
  by (auto simp: saveResourceType_def Let_def started_emit started_makeDirs
        dest!: started_saveItems split: option.splits if_splits simp del: Join.simps)

lemma saveResourceTypes_total: "\<exists>st'. saveResourceTypes w ns ond mnd kinds st = Some st'"
proof (induction kinds arbitrary: st)
  case Nil show ?case by simp
next
  case (Cons res kinds)
  obtain s where "saveResourceType w ns ond mnd res st = Some s" using saveResourceType_total by blast
  with Cons show ?case by simp
qed

lemma started_saveResourceTypes:
  "saveResourceTypes w ns ond mnd kinds st = Some st' \<Longrightarrow>
   namespacesStarted (trace st') = namespacesStarted (trace st)"
proof (induction kinds arbitrary: st)
  case Nil then show ?case by simp
next
  case (Cons res kinds)
  obtain s where s: "saveResourceType w ns ond mnd res st = Some s" using saveResourceType_total by blast
  with Cons.prems have "saveResourceTypes w ns ond mnd kinds s = Some st'" by simp
  from Cons.IH[OF this] started_saveResourceType[OF s] show ?case by simp
qed

lemma saveNamespaceResource_total:
  "\<exists>e st'. saveNamespaceResource w ns od md st = Some (e, st')"
proof (cases "api_Get w ns")
  case None then show ?thesis by (simp add: saveNamespaceResource_def)
next
  case (Some r)
  obtain r' where "cleanResource r = Some r'" using cleanResource_total by blast
  with Some show ?thesis
    by (simp add: saveNamespaceResource_def Let_def split_def split: option.splits del: Join.simps)
qed

lemma started_saveNamespaceResource:
  "saveNamespaceResource w ns od md st = Some (e, st') \<Longrightarrow>
   namespacesStarted (trace st') = namespacesStarted (trace st)"
  by (auto simp: saveNamespaceResource_def Let_def split_def started_save
        split: option.splits simp del: Join.simps)

lemma saveNamespace_run:
  "\<exists>st'. saveNamespace w od md ns st = Some st' \<and>
         namespacesStarted (trace st') = namespacesStarted (trace st) @ [TrimSpace ns]"
proof -
  define s1 where "s1 = makeDirs w (NamespaceDirError (TrimSpace ns))
                          [Join [od, TrimSpace ns], Join [md, TrimSpace ns]]
                          (emit (ProcessingNamespace (TrimSpace ns)) st)"
  have a: "namespacesStarted (trace s1) = namespacesStarted (trace st) @ [TrimSpace ns]"
    unfolding s1_def by (simp add: started_makeDirs del: Join.simps)
       (simp add: emit_def started_append, simp add: namespacesStarted_def List.map_filter_simps)
  obtain e s2 where s2: "saveNamespaceResource w (TrimSpace ns) (Join [od, TrimSpace ns]) (Join [md, TrimSpace ns]) s1 = Some (e, s2)"
    using saveNamespaceResource_total by blast
  define s3 where "s3 = (case e of Some x \<Rightarrow> emit (SaveNamespaceError (TrimSpace ns) x) s2 | None \<Rightarrow> s2)"
  have b: "namespacesStarted (trace s3) = namespacesStarted (trace s1)"
    using started_saveNamespaceResource[OF s2] by (simp add: s3_def started_emit split: option.splits)
  obtain s4 where s4: "saveResourceTypes w (TrimSpace ns) (Join [od, TrimSpace ns]) (Join [md, TrimSpace ns])
                         resourceTypes s3 = Some s4"
    using saveResourceTypes_total by blast
  have "saveNamespace w od md ns st = Some s4"
    using s2 s4 by (simp add: saveNamespace_def Let_def s1_def s3_def del: Join.simps)
  with started_saveResourceTypes[OF s4] a b show ?thesis by simp
qed

lemma walk_visits_every_namespace:
  "\<exists>st'. saveNamespaces w od md namespaceList st = Some st' \<and>
         namespacesStarted (trace st') = namespacesStarted (trace st) @ map TrimSpace namespaceList"
proof (induction namespaceList arbitrary: st)
  case Nil show ?case by simp
next
  case (Cons ns rest)
  obtain s where s: "saveNamespace w od md ns st = Some s"
    and t: "namespacesStarted (trace s) = namespacesStarted (trace st) @ [TrimSpace ns]"
    using saveNamespace_run by blast
  from Cons[of s] obtain st' where "saveNamespaces w od md rest s = Some st'"
    and "namespacesStarted (trace st') = namespacesStarted (trace s) @ map TrimSpace rest" by blast
  with s t show ?case by simp
qed

section \<open>Properties of the archiver\<close>

lemma TrimPrefix_append: "TrimPrefix (s @ x) s = x"
  by (simp add: TrimPrefix_def)

lemma joinSep_concat: "joinSep (n # ns) = n @ concat (map ((#) Separator) ns)"
  by (induction ns arbitrary: n) auto

lemma zipName_pathOf: "zipName s (pathOf s p) = joinSep p"
proof (cases p)
  case Nil
  then show ?thesis by (simp add: zipName_def pathOf_def TrimPrefix_def)
next
  case (Cons n ns)
  have "zipName s (pathOf s p) = TrimPrefix (Separator # n @ concat (map ((#) Separator) ns)) [Separator]"
    unfolding zipName_def pathOf_def Cons by (simp add: TrimPrefix_append)
  also have "\<dots> = n @ concat (map ((#) Separator) ns)" by (simp add: TrimPrefix_def)
  finally show ?thesis unfolding Cons by (simp add: joinSep_concat)
qed

lemma pathOf_Cons: "pathOf (path @ Separator # name) p = pathOf path (name # p)"
  by (simp add: pathOf_def)

lemma entryAt_child:
  "map (entryAt s (path @ Separator # name)) xs = map (entryAt s path) (map (\<lambda>(p, c). (name # p, c)) xs)"
  by (simp add: entryAt_def pathOf_Cons split_def)

lemma walk_ok:
  "cleanDir path \<Longrightarrow> readable n \<Longrightarrow>
     walk s path n zw = (None, zw @ map (entryAt s path) (files n))"
  "cleanDir path \<Longrightarrow> readableIn names \<Longrightarrow>
     walkNames s path names zw = (None, zw @ map (entryAt s path) (filesIn names))"
proof (induction s path n zw and s path names zw rule: walk_walkNames.induct)
  case (1 sourceDir path content zw)
  show ?case by (simp add: walkFn_def entryAt_def pathOf_def zipName_def)
next
  case (2 sourceDir path zw)
  then show ?case by simp
next
  case (3 sourceDir path names zw)
  then show ?case by (simp add: walkFn_def)
next
  case (4 sourceDir path zw)
  show ?case by simp
next
  case (5 sourceDir path name n names zw)
  from "5.prems" have v: "validName name" and rn: "readable n" and rs: "readableIn names"
    by simp_all
  from Join_child[OF "5.prems"(1) v]
  have j: "Join [path, name] = path @ Separator # name" and c: "cleanDir (path @ Separator # name)"
    by simp_all
  from "5.IH"(1)[unfolded j, OF c rn]
  have w: "walk sourceDir (path @ Separator # name) n zw =
             (None, zw @ map (entryAt sourceDir (path @ Separator # name)) (files n))" .
  have "walkNames sourceDir path names (zw @ map (entryAt sourceDir (path @ Separator # name)) (files n)) =
          (None, (zw @ map (entryAt sourceDir (path @ Separator # name)) (files n)) @
                 map (entryAt sourceDir path) (filesIn names))"
    by (rule "5.IH"(2)[unfolded j, OF w[symmetric] refl "5.prems"(1) rs])
  with w show ?case
    unfolding walkNames.simps j by (simp add: entryAt_child)
qed

lemma entryAt_root: "entryAt s s = expected_entry"
  by (rule ext) (simp add: entryAt_def expected_entry_def zipName_pathOf)

text \<open>
  Claim C9 as stated fails when the source directory is not given as a clean path:
  \<^verbatim>\<open>Walk\<close> builds the paths with \<^verbatim>\<open>Join\<close>, which cleans them, so \<^verbatim>\<open>./resources\<close> is no
  prefix of \<^verbatim>\<open>resources/c.yaml\<close>, nothing is trimmed, and the entry names keep the
  directory.
\<close>

theorem zip_entry_names_counterexample:
  "readable ex_tree \<and>
   ZipDirectory True ''./resources'' ex_tree =
     (None, [\<lparr>entry_name = ''resources/a/b.yaml'', entry_method = Deflate, entry_data = ''kind: A''\<rparr>,
             \<lparr>entry_name = ''resources/c.yaml'', entry_method = Deflate, entry_data = ''kind: C''\<rparr>]) \<and>
   map expected_entry (files ex_tree) =
     [\<lparr>entry_name = ''a/b.yaml'', entry_method = Deflate, entry_data = ''kind: A''\<rparr>,
      \<lparr>entry_name = ''c.yaml'', entry_method = Deflate, entry_data = ''kind: C''\<rparr>]"
  by code_simp

text \<open>
  Claim C9, amended. When the source directory is given as a clean path other than
  \<^verbatim>\<open>.\<close> and the root (as the one call in \<^verbatim>\<open>main\<close> gives it, \<^verbatim>\<open>resources\<close>), and every entry
  of the tree can be read, \<^verbatim>\<open>ZipDirectory\<close> succeeds and the archive holds exactly one entry
  per regular file, in walk order, compressed with deflate, holding the file's bytes and
  named by the file's path relative to the source directory, its elements joined by forward
  slashes with no leading separator. Directories give no entry.
\<close>

theorem zip_one_entry_per_file:
  assumes "cleanDir sourceDir" and "readable tree"
  shows "ZipDirectory True sourceDir tree = (None, map expected_entry (files tree))"
  using walk_ok(1)[OF assms, of sourceDir "[]"] by (simp add: ZipDirectory_def entryAt_root)

text \<open>The spec's example: a tree with \<^verbatim>\<open>a/b.yaml\<close> and \<^verbatim>\<open>c.yaml\<close> under \<^verbatim>\<open>resources\<close> gives
  exactly those two entries.\<close>

theorem zip_one_entry_per_file_witness:
  "cleanDir ''resources'' \<and> readable ex_tree \<and>
   ZipDirectory True ''resources'' ex_tree =
     (None, [\<lparr>entry_name = ''a/b.yaml'', entry_method = Deflate, entry_data = ''kind: A''\<rparr>,
             \<lparr>entry_name = ''c.yaml'', entry_method = Deflate, entry_data = ''kind: C''\<rparr>])"
proof -
  have c: "cleanDir ''resources''" by code_simp
  have r: "readable ex_tree" by code_simp
  have e: "map expected_entry (files ex_tree) =
     [\<lparr>entry_name = ''a/b.yaml'', entry_method = Deflate, entry_data = ''kind: A''\<rparr>,
      \<lparr>entry_name = ''c.yaml'', entry_method = Deflate, entry_data = ''kind: C''\<rparr>]" by code_simp
  from zip_one_entry_per_file[OF c r] c r e show ?thesis by simp
qed

section \<open>Properties of the uploader\<close>

lemma file_Read_small:
  "\<not> fails \<Longrightarrow> length content \<le> maxRW \<Longrightarrow> file_Read fails content (length content) = Some content"
  by (auto simp: file_Read_def Let_def min_def)

lemma file_Read_big:
  "\<not> fails \<Longrightarrow> maxRW < length content \<Longrightarrow>
   file_Read fails content (length content) =
     Some (take maxRW content @ replicate (length content - maxRW) (CHR 0x00))"
  by (auto simp: file_Read_def Let_def min_def maxRW_def)

lemma file_Read_big_file:
  "file_Read False big_file (length big_file) = Some (replicate (2 ^ 30) (CHR 0x01) @ [CHR 0x00])"
proof -
  have l: "length big_file = 2 ^ 30 + 1" by (simp add: big_file_def)
  have "maxRW < length big_file" unfolding l maxRW_def by simp
  from file_Read_big[of False, OF _ this] show ?thesis
    unfolding l by (simp add: maxRW_def big_file_def)
qed

lemma big_file_last: "replicate (2 ^ 30) (CHR 0x01) @ [CHR 0x00] \<noteq> big_file"
proof
  assume "replicate (2 ^ 30) (CHR 0x01) @ [CHR 0x00] = big_file"
  then have "last (replicate (2 ^ 30) (CHR 0x01) @ [CHR 0x00]) = last big_file" by simp
  then show False by (simp add: big_file_def)
qed

lemma upload_body_is_file:
  assumes "url_Parse w u = Some e" and "\<not> stat_IsNotExist w f" and "os_Open w f = Some c"
    and "\<not> file_Stat_fails w f" and "\<not> file_Read_fails w f" and "http_NewRequest_ok w e"
    and "length c \<le> maxRW"
  shows "snd (UploadUsingPAR w f u) =
           [\<lparr>req_method = ''PUT'', req_url = e, req_body = c, req_content_type = ''application/zip''\<rparr>]"
  using assms by (simp add: UploadUsingPAR_def file_Read_small Let_def split: option.splits)

text \<open>
  Claim C4 on a file larger than one read can return. The file exists, opens and is read
  without error, the URL parses and the endpoint answers 200: the upload reports success and
  the single PUT carries a body of the right length whose last byte is 0, where the file's
  is 1. The body is not the file's content.
\<close>

theorem upload_big_file_body_differs:
  "UploadUsingPAR (answering big_file 200) ''backup.zip'' ''https://os.example/p/backup.zip'' =
     (Inr (), [\<lparr>req_method = ''PUT'', req_url = ''https://os.example/p/backup.zip'',
                req_body = replicate (2 ^ 30) (CHR 0x01) @ [CHR 0x00],
                req_content_type = ''application/zip''\<rparr>]) \<and>
   length (replicate (2 ^ 30) (CHR 0x01) @ [CHR 0x00]) = length big_file \<and>
   replicate (2 ^ 30) (CHR 0x01) @ [CHR 0x00] \<noteq> big_file"
proof -
  have "length (replicate (2 ^ 30) (CHR 0x01) @ [CHR 0x00]) = length big_file"
    by (simp add: big_file_def)
  moreover have "UploadUsingPAR (answering big_file 200) ''backup.zip'' ''https://os.example/p/backup.zip'' =
     (Inr (), [\<lparr>req_method = ''PUT'', req_url = ''https://os.example/p/backup.zip'',
                req_body = replicate (2 ^ 30) (CHR 0x01) @ [CHR 0x00],
                req_content_type = ''application/zip''\<rparr>])"
    by (simp add: UploadUsingPAR_def answering_def file_Read_big_file Let_def)
  ultimately show ?thesis using big_file_last by blast
qed

text \<open>
  Claim C8. The upload reports success exactly when every step before the request works and
  the response status is 200 or 201. It reports a failure when the URL does not parse, when
  the file is missing, when it cannot be opened, when reading a non-empty file fails, when
  the transport fails, and on every status other than 200 and 201.
\<close>

theorem upload_success_iff:
  "(fst (UploadUsingPAR w f u) = Inr () \<longleftrightarrow>
      (\<exists>e c b. url_Parse w u = Some e \<and> \<not> stat_IsNotExist w f \<and> os_Open w f = Some c \<and>
         \<not> file_Stat_fails w f \<and> file_Read (file_Read_fails w f) c (length c) = Some b \<and>
         http_NewRequest_ok w e \<and>
         (let r = \<lparr>req_method = ''PUT'', req_url = e, req_body = b, req_content_type = ''application/zip''\<rparr>
          in client_Do w r = Some 200 \<or> client_Do w r = Some 201))) \<and>
   (url_Parse w u = None \<longrightarrow> isl (fst (UploadUsingPAR w f u))) \<and>
   (stat_IsNotExist w f \<longrightarrow> isl (fst (UploadUsingPAR w f u))) \<and>
   (os_Open w f = None \<longrightarrow> isl (fst (UploadUsingPAR w f u))) \<and>
   (file_Read_fails w f \<and> os_Open w f \<noteq> Some [] \<longrightarrow> isl (fst (UploadUsingPAR w f u))) \<and>
   ((\<forall>r. client_Do w r = None) \<longrightarrow> isl (fst (UploadUsingPAR w f u))) \<and>
   (\<forall>code. (\<forall>r. client_Do w r = Some code) \<and> code \<noteq> 200 \<and> code \<noteq> 201 \<longrightarrow>
       isl (fst (UploadUsingPAR w f u)))"
proof (intro conjI allI impI)
  show "fst (UploadUsingPAR w f u) = Inr () \<longleftrightarrow>
      (\<exists>e c b. url_Parse w u = Some e \<and> \<not> stat_IsNotExist w f \<and> os_Open w f = Some c \<and>
         \<not> file_Stat_fails w f \<and> file_Read (file_Read_fails w f) c (length c) = Some b \<and>
         http_NewRequest_ok w e \<and>
         (let r = \<lparr>req_method = ''PUT'', req_url = e, req_body = b, req_content_type = ''application/zip''\<rparr>
          in client_Do w r = Some 200 \<or> client_Do w r = Some 201))"
    by (auto simp: UploadUsingPAR_def Let_def split: option.splits if_splits)
next
  assume "url_Parse w u = None"
  then show "isl (fst (UploadUsingPAR w f u))" by (simp add: UploadUsingPAR_def)
next
  assume "stat_IsNotExist w f"
  then show "isl (fst (UploadUsingPAR w f u))"
    by (simp add: UploadUsingPAR_def split: option.splits)
next
  assume "os_Open w f = None"
  then show "isl (fst (UploadUsingPAR w f u))"
    by (simp add: UploadUsingPAR_def split: option.splits)
next
  assume "file_Read_fails w f \<and> os_Open w f \<noteq> Some []"
  then show "isl (fst (UploadUsingPAR w f u))"
    by (auto simp: UploadUsingPAR_def file_Read_def Let_def split: option.splits)
next
  assume "\<forall>r. client_Do w r = None"
  then show "isl (fst (UploadUsingPAR w f u))"
    by (simp add: UploadUsingPAR_def Let_def split: option.splits)
next
  fix code assume "(\<forall>r. client_Do w r = Some code) \<and> code \<noteq> 200 \<and> code \<noteq> 201"
  then show "isl (fst (UploadUsingPAR w f u))"
    by (simp add: UploadUsingPAR_def Let_def split: option.splits)
qed

text \<open>An endpoint answering 200 or 201 gives success; one answering 500 or 204, a failure;
  so does a file that is missing.\<close>

theorem upload_success_iff_witness:
  "fst (UploadUsingPAR (answering ''PK'' 200) ''b.zip'' ''https://os.example/b.zip'') = Inr () \<and>
   fst (UploadUsingPAR (answering ''PK'' 201) ''b.zip'' ''https://os.example/b.zip'') = Inr () \<and>
   (\<forall>r. client_Do (answering ''PK'' 500) r = Some 500) \<and>
   isl (fst (UploadUsingPAR (answering ''PK'' 500) ''b.zip'' ''https://os.example/b.zip'')) \<and>
   (\<forall>r. client_Do (answering ''PK'' 204) r = Some 204) \<and>
   isl (fst (UploadUsingPAR (answering ''PK'' 204) ''b.zip'' ''https://os.example/b.zip'')) \<and>
   stat_IsNotExist ((answering ''PK'' 200)\<lparr>stat_IsNotExist := (\<lambda>p. True)\<rparr>) ''b.zip'' \<and>
   isl (fst (UploadUsingPAR ((answering ''PK'' 200)\<lparr>stat_IsNotExist := (\<lambda>p. True)\<rparr>)
              ''b.zip'' ''https://os.example/b.zip''))"
proof -
  let ?f = "''b.zip''" and ?u = "''https://os.example/b.zip''"
  have "file_Read False ''PK'' (length ''PK'') = Some ''PK''"
    by (rule file_Read_small) (simp_all add: maxRW_def)
  then have r: "file_Read False ''PK'' (Suc (Suc 0)) = Some ''PK''" by simp
  have ok: "fst (UploadUsingPAR (answering ''PK'' c) ?f ?u) = Inr ()" if "c = 200 \<or> c = 201" for c
    using that upload_success_iff[of "answering ''PK'' c" ?f ?u] r
    by (auto simp: answering_def Let_def)
  have bad: "isl (fst (UploadUsingPAR (answering ''PK'' c) ?f ?u))" if "c \<noteq> 200" "c \<noteq> 201" for c
    using that upload_success_iff[of "answering ''PK'' c" ?f ?u]
    by (simp add: answering_def)
  have miss: "isl (fst (UploadUsingPAR ((answering ''PK'' 200)\<lparr>stat_IsNotExist := (\<lambda>p. True)\<rparr>) ?f ?u))"
    using upload_success_iff[of "(answering ''PK'' 200)\<lparr>stat_IsNotExist := (\<lambda>p. True)\<rparr>" ?f ?u]
    by simp
  from ok[of 200] ok[of 201] bad[of 500] bad[of 204] miss show ?thesis
    by (simp add: answering_def)
qed


end
